theory Spec2Isabelle
  imports Main
begin

section \<open>The platform the server talks to\<close>

text \<open>
  \<^verbatim>\<open>server.ts\<close> drives a headless browser through puppeteer, reads one line from the
  console through readline, and answers HTTP requests through express. None of the three
  is part of the repository, so the browser and the console are a parameter of the model:
  a value of type \<open>'w platform\<close> over an arbitrary world \<open>'w\<close>. Every call either
  resolves with a value or rejects with an exception, and may change the world.
\<close>

datatype exn = Error string | TimeoutError string

datatype browser = Browser nat
datatype page = Page nat
datatype element = ElementHandle nat

datatype lifecycle = Load | DomContentLoaded | NetworkIdle0 | NetworkIdle2

text \<open>
  The calls that return nothing: they resolve or they reject. The program always launches
  the browser with the same options and always waits for a selector to be visible, so
  neither is recorded; a wait for a selector carries its timeout when the source gives one.
\<close>

datatype command =
    SetDefaultNavigationTimeout page nat
  | Goto page string lifecycle
  | TypeText page string string
  | Click page string
  | WaitForSelector page string "nat option"
  | WaitForNavigation page lifecycle
  | ElementClick element
  | ClosePage page
  | CloseBrowser browser

text \<open>Every call the program makes, in the order it makes them, is recorded in a trace.\<close>

datatype call =
    Launch
  | NewPage browser
  | Cmd command
  | Evaluate page
  | Dollar page string
  | Content page
  | Question string
  | RlClose

record 'w platform =
  launch :: "'w \<Rightarrow> (exn + browser) \<times> 'w"
  newPage :: "browser \<Rightarrow> 'w \<Rightarrow> (exn + page) \<times> 'w"
  command :: "command \<Rightarrow> 'w \<Rightarrow> (exn + unit) \<times> 'w"
  evaluate :: "page \<Rightarrow> 'w \<Rightarrow> (exn + (string \<Rightarrow> bool)) \<times> 'w"
  dollar :: "page \<Rightarrow> string \<Rightarrow> 'w \<Rightarrow> (exn + element option) \<times> 'w"
  content :: "page \<Rightarrow> 'w \<Rightarrow> (exn + string) \<times> 'w"
  question :: "string \<Rightarrow> 'w \<Rightarrow> string option \<times> 'w"
  env :: "string \<rightharpoonup> string"

text \<open>
  \<^item> \<open>evaluate\<close> runs a function inside the page; what the function of the source needs
    from the page is \<^verbatim>\<open>document.querySelector(sel)\<close> being non-null, so a resolved
    \<open>evaluate\<close> hands over that predicate on selectors.
  \<^item> \<open>dollar\<close> is \<^verbatim>\<open>page.$(sel)\<close>: an element handle, or null.
  \<^item> \<open>question\<close> is \<^verbatim>\<open>rl.question\<close>: the line the human types, or \<open>None\<close> when no
    line ever comes. It never rejects.
  \<^item> \<open>env\<close> is \<^verbatim>\<open>process.env\<close>.
\<close>

section \<open>The process state\<close>

text \<open>
  The module-level variables \<^verbatim>\<open>browser\<close>, \<^verbatim>\<open>persistentPage\<close> and
  \<^verbatim>\<open>formCache\<close>, the world behind the platform, the trace of calls, whether
  \<^verbatim>\<open>app.listen\<close> has run, and the code given to \<^verbatim>\<open>process.exit\<close> if it has run.
  What the program writes with \<^verbatim>\<open>console.log\<close> and \<^verbatim>\<open>console.error\<close> is left out.
\<close>

record 'w server =
  browser :: "browser option"
  persistentPage :: "page option"
  formCache :: "string \<rightharpoonup> string"
  world :: 'w
  trace :: "call list"
  listening :: bool
  exit_code :: "nat option"

definition boot :: "'w \<Rightarrow> 'w server" where
  "boot w = \<lparr>browser = None, persistentPage = None, formCache = Map.empty, world = w,
             trace = [], listening = False, exit_code = None\<rparr>"

section \<open>Asynchronous functions\<close>

text \<open>
  An \<^verbatim>\<open>async\<close> function is a state transformer whose promise resolves, rejects, or
  stays pending for ever.
\<close>

datatype 'a result = Resolved 'a | Rejected exn | Pending

type_synonym ('w, 'a) async = "'w server \<Rightarrow> 'a result \<times> 'w server"

definition resolve :: "'a \<Rightarrow> ('w, 'a) async" where
  "resolve x = (\<lambda>s. (Resolved x, s))"

definition throw :: "exn \<Rightarrow> ('w, 'a) async" where
  "throw e = (\<lambda>s. (Rejected e, s))"

definition await :: "('w, 'a) async \<Rightarrow> ('a \<Rightarrow> ('w, 'b) async) \<Rightarrow> ('w, 'b) async" where
  "await m f = (\<lambda>s. case m s of
                      (Resolved x, s') \<Rightarrow> f x s'
                    | (Rejected e, s') \<Rightarrow> (Rejected e, s')
                    | (Pending, s') \<Rightarrow> (Pending, s'))"

definition try_catch :: "('w, 'a) async \<Rightarrow> (exn \<Rightarrow> ('w, 'a) async) \<Rightarrow> ('w, 'a) async" where
  "try_catch m h = (\<lambda>s. case m s of
                          (Rejected e, s') \<Rightarrow> h e s'
                        | (r, s') \<Rightarrow> (r, s'))"

definition gets :: "('w server \<Rightarrow> 'a) \<Rightarrow> ('w, 'a) async" where
  "gets f = (\<lambda>s. (Resolved (f s), s))"

definition modify :: "('w server \<Rightarrow> 'w server) \<Rightarrow> ('w, unit) async" where
  "modify f = (\<lambda>s. (Resolved (), f s))"

text \<open>A call to the platform: it acts on the world and is appended to the trace.\<close>

definition settle :: "exn + 'a \<Rightarrow> 'a result" where
  "settle r = (case r of Inl e \<Rightarrow> Rejected e | Inr x \<Rightarrow> Resolved x)"

definition logged :: "call \<Rightarrow> 'w \<Rightarrow> 'w server \<Rightarrow> 'w server" where
  "logged c w' s = s\<lparr>world := w', trace := trace s @ [c]\<rparr>"

definition extern :: "call \<Rightarrow> ('w \<Rightarrow> (exn + 'a) \<times> 'w) \<Rightarrow> ('w, 'a) async" where
  "extern c f = (\<lambda>s. case f (world s) of (r, w') \<Rightarrow> (settle r, logged c w' s))"

definition cmd :: "'w platform \<Rightarrow> command \<Rightarrow> ('w, unit) async" where
  "cmd api c = extern (Cmd c) (command api c)"

section \<open>The fetch handler\<close>

text \<open>
  \<^verbatim>\<open>req.query.url\<close> as express parses it: absent, a string, an array (a repeated
  key), or a nested object.
\<close>

datatype qvalue = QString string | QArray "qvalue list" | QObject "(string \<times> qvalue) list"

record request =
  query :: "string \<rightharpoonup> qvalue"

datatype body = Text string | Json "(string \<times> string) list"

record response =
  status :: nat
  body :: body

definition send :: "string \<Rightarrow> response" where
  "send html = \<lparr>status = 200, body = Text html\<rparr>"

definition json_error :: "nat \<Rightarrow> string \<Rightarrow> response" where
  "json_error code msg = \<lparr>status = code, body = Json [(''error'', msg)]\<rparr>"

text \<open>JavaScript's \<^verbatim>\<open>!v\<close> and \<^verbatim>\<open>typeof v\<close> on such a value.\<close>

fun falsy :: "qvalue option \<Rightarrow> bool" where
  "falsy None = True"
| "falsy (Some (QString s)) = (s = [])"
| "falsy (Some (QArray _)) = False"
| "falsy (Some (QObject _)) = False"

fun typeof :: "qvalue option \<Rightarrow> string" where
  "typeof None = ''undefined''"
| "typeof (Some (QString _)) = ''string''"
| "typeof (Some (QArray _)) = ''object''"
| "typeof (Some (QObject _)) = ''object''"

text \<open>The string behind a value whose \<open>typeof\<close> is \<^verbatim>\<open>"string"\<close>.\<close>

fun as_string :: "qvalue option \<Rightarrow> string" where
  "as_string (Some (QString s)) = s"
| "as_string _ = []"

text \<open>
  \<^verbatim>\<open>fetchFormHandler\<close> (server.ts, lines 107 to 138). The value it resolves with is
  the response it has sent. \<open>fetch_form\<close> is the body of its \<^verbatim>\<open>try\<close> (lines 121
  to 133), run on the page that the guard of line 115 found in \<^verbatim>\<open>persistentPage\<close>;
  no handler assigns that variable, so it holds the same page at lines 129 and 130.
\<close>

definition fetch_form :: "'w platform \<Rightarrow> page \<Rightarrow> string \<Rightarrow> ('w, response) async" where
  "fetch_form api p url =
     await (gets formCache) (\<lambda>cache.
       case cache url of
         Some html \<Rightarrow> resolve (send html)
       | None \<Rightarrow>
           await (cmd api (Goto p url DomContentLoaded)) (\<lambda>_.
           await (extern (Content p) (content api p)) (\<lambda>html.
           await (modify (\<lambda>s. s\<lparr>formCache := (formCache s)(url \<mapsto> html)\<rparr>)) (\<lambda>_.
           resolve (send html)))))"

definition fetchFormHandler :: "'w platform \<Rightarrow> request \<Rightarrow> ('w, response) async" where
  "fetchFormHandler api req =
     (let url = query req ''url'' in
      if falsy url \<or> typeof url \<noteq> ''string'' then
        resolve (json_error 400 ''URL is required and must be a string'')
      else
        await (gets browser) (\<lambda>b.
        await (gets persistentPage) (\<lambda>pp.
          case (b, pp) of
            (Some _, Some p) \<Rightarrow>
              try_catch (fetch_form api p (as_string url))
                (\<lambda>err. resolve (json_error 500 ''Failed to fetch form''))
          | _ \<Rightarrow> resolve (json_error 500 ''Browser not initialized''))))"

section \<open>Logging in at start-up\<close>

text \<open>\<^verbatim>\<open>process.env.X || ""\<close>: an unset variable reads as the empty string.\<close>

definition or_empty :: "string option \<Rightarrow> string" where
  "or_empty v = (case v of None \<Rightarrow> [] | Some s \<Rightarrow> s)"

definition code_prompt :: string where
  "code_prompt = ''Enter the verification code sent to your Gmail: ''"

text \<open>
  \<^verbatim>\<open>promptForCode\<close> (lines 34 to 40): the promise resolves with the typed line, and
  stays pending while no line comes.
\<close>

definition promptForCode :: "'w platform \<Rightarrow> ('w, string) async" where
  "promptForCode api =
     (\<lambda>s. case question api code_prompt (world s) of
             (answer, w') \<Rightarrow>
               ((case answer of None \<Rightarrow> Pending | Some code \<Rightarrow> Resolved code),
                logged (Question code_prompt) w' s))"

definition gmailOptionSelector :: string where
  \<open>gmailOptionSelector = ''div[data-challengetype="12"]''\<close>

definition code_input :: string where
  \<open>code_input = ''input[name="totpPin"], input[type="tel"]''\<close>

definition password_input :: string where
  \<open>password_input = ''input[name='Passwd']''\<close>

text \<open>
  The function evaluated in the page (lines 64 to 66), given what
  \<^verbatim>\<open>document.querySelector\<close> finds there.
\<close>

definition isVerificationPrompt :: "(string \<Rightarrow> bool) \<Rightarrow> bool" where
  "isVerificationPrompt querySelector \<longleftrightarrow>
     querySelector ''#challenge'' \<or> querySelector ''.d2CFce''"

text \<open>The verification branch of the login (lines 69 to 87).\<close>

definition verify_by_code :: "'w platform \<Rightarrow> page \<Rightarrow> ('w, unit) async" where
  "verify_by_code api p =
     await (extern (Dollar p gmailOptionSelector) (dollar api p gmailOptionSelector)) (\<lambda>gmailOption.
     await (case gmailOption of
              Some el \<Rightarrow>
                await (cmd api (ElementClick el)) (\<lambda>_.
                cmd api (WaitForNavigation p DomContentLoaded))
            | None \<Rightarrow> throw (Error ''Gmail verification option not found.'')) (\<lambda>_.
     await (cmd api (WaitForSelector p code_input None)) (\<lambda>_.
     await (promptForCode api) (\<lambda>code.
     await (cmd api (TypeText p code_input code)) (\<lambda>_.
     await (cmd api (Click p ''#totpNext, #submitChallenge'')) (\<lambda>_.
     cmd api (WaitForNavigation p DomContentLoaded)))))))"

text \<open>The password branch (lines 90 to 92).\<close>

definition enter_password :: "'w platform \<Rightarrow> page \<Rightarrow> ('w, unit) async" where
  "enter_password api p =
     await (cmd api (TypeText p password_input (or_empty (env api ''GOOGLE_PASSWORD'')))) (\<lambda>_.
     await (cmd api (Click p ''#passwordNext'')) (\<lambda>_.
     cmd api (WaitForNavigation p DomContentLoaded)))"

text \<open>
  The body of the \<^verbatim>\<open>try\<close> of \<^verbatim>\<open>initializeBrowser\<close> (lines 45 to 95), in
  three parts: the browser and the page (lines 46 to 53), the account identifier and the
  detection of a verification prompt (lines 56 to 66), and the branch on that detection
  (line 68). The page used after line 52 is the one just stored in
  \<^verbatim>\<open>persistentPage\<close>; nothing else runs before the login ends, so the variable
  still holds it at every later line.
\<close>

definition open_page :: "'w platform \<Rightarrow> ('w, page) async" where
  "open_page api =
     await (extern Launch (launch api)) (\<lambda>b.
     await (modify (\<lambda>s. s\<lparr>browser := Some b\<rparr>)) (\<lambda>_.
     await (extern (NewPage b) (newPage api b)) (\<lambda>p.
     await (modify (\<lambda>s. s\<lparr>persistentPage := Some p\<rparr>)) (\<lambda>_.
     await (cmd api (SetDefaultNavigationTimeout p 10000)) (\<lambda>_.
     resolve p)))))"

definition identify :: "'w platform \<Rightarrow> page \<Rightarrow> ('w, string \<Rightarrow> bool) async" where
  "identify api p =
     await (cmd api (Goto p ''https://accounts.google.com/'' DomContentLoaded)) (\<lambda>_.
     await (cmd api (TypeText p ''#identifierId'' (or_empty (env api ''GOOGLE_EMAIL'')))) (\<lambda>_.
     await (cmd api (Click p ''#identifierNext'')) (\<lambda>_.
     await (cmd api (WaitForSelector p ''#passwordNext, #totpPin, #challenge'' (Some 15000))) (\<lambda>_.
     extern (Evaluate p) (evaluate api p)))))"

definition login :: "'w platform \<Rightarrow> ('w, unit) async" where
  "login api =
     await (open_page api) (\<lambda>p.
     await (identify api p) (\<lambda>querySelector.
       if isVerificationPrompt querySelector then verify_by_code api p
       else enter_password api p))"

text \<open>
  The \<^verbatim>\<open>catch\<close> of \<^verbatim>\<open>initializeBrowser\<close> (lines 96 to 103): it runs in the state
  the failed step left.
\<close>

definition release :: "'w platform \<Rightarrow> exn \<Rightarrow> ('w, unit) async" where
  "release api err =
     await (gets persistentPage) (\<lambda>pp.
     await (case pp of Some p \<Rightarrow> cmd api (ClosePage p) | None \<Rightarrow> resolve ()) (\<lambda>_.
     await (gets browser) (\<lambda>b.
     await (case b of Some b' \<Rightarrow> cmd api (CloseBrowser b') | None \<Rightarrow> resolve ()) (\<lambda>_.
     await (modify (\<lambda>s. s\<lparr>browser := None, persistentPage := None\<rparr>)) (\<lambda>_.
     throw err)))))"

definition initializeBrowser :: "'w platform \<Rightarrow> ('w, unit) async" where
  "initializeBrowser api = try_catch (login api) (release api)"

section \<open>Start-up and shutdown\<close>

text \<open>
  \<^verbatim>\<open>process.exit(n)\<close> is the last statement wherever the program calls it, so it is
  modelled by recording the code.
\<close>

definition process_exit :: "nat \<Rightarrow> ('w, unit) async" where
  "process_exit n = modify (\<lambda>s. s\<lparr>exit_code := Some n\<rparr>)"

text \<open>\<^verbatim>\<open>startServer\<close> (lines 143 to 148) and the call at the end of the file.\<close>

definition startServer :: "'w platform \<Rightarrow> ('w, unit) async" where
  "startServer api =
     await (initializeBrowser api) (\<lambda>_. modify (\<lambda>s. s\<lparr>listening := True\<rparr>))"

definition main :: "'w platform \<Rightarrow> ('w, unit) async" where
  "main api = try_catch (startServer api) (\<lambda>err. process_exit 1)"

text \<open>\<^verbatim>\<open>shutdown\<close> (lines 151 to 157), the handler of SIGINT and SIGTERM.\<close>

definition shutdown :: "'w platform \<Rightarrow> ('w, unit) async" where
  "shutdown api =
     await (gets persistentPage) (\<lambda>pp.
     await (case pp of Some p \<Rightarrow> cmd api (ClosePage p) | None \<Rightarrow> resolve ()) (\<lambda>_.
     await (gets browser) (\<lambda>b.
     await (case b of Some b' \<Rightarrow> cmd api (CloseBrowser b') | None \<Rightarrow> resolve ()) (\<lambda>_.
     await (modify (\<lambda>s. s\<lparr>trace := trace s @ [RlClose]\<rparr>)) (\<lambda>_.
     process_exit 0)))))"

text \<open>
  A signal reaches a process that is still running; once \<^verbatim>\<open>process.exit\<close> has run,
  no handler runs any more.
\<close>

definition on_signal :: "'w platform \<Rightarrow> 'w server \<Rightarrow> 'w server" where
  "on_signal api s = (if exit_code s = None then snd (shutdown api s) else s)"

text \<open>
  The earlier version of the file kept beside \<^verbatim>\<open>server.ts\<close> has the same fetch
  handler, and closes on SIGINT and SIGTERM with two anonymous handlers (its lines 104 to
  116) that differ from \<^verbatim>\<open>shutdown\<close> only in having no readline to close.
\<close>

definition signal_handler :: "'w platform \<Rightarrow> ('w, unit) async" where
  "signal_handler api =
     await (gets persistentPage) (\<lambda>pp.
     await (case pp of Some p \<Rightarrow> cmd api (ClosePage p) | None \<Rightarrow> resolve ()) (\<lambda>_.
     await (gets browser) (\<lambda>b.
     await (case b of Some b' \<Rightarrow> cmd api (CloseBrowser b') | None \<Rightarrow> resolve ()) (\<lambda>_.
     process_exit 0))))"

text \<open>Requests served one after the other, each to completion.\<close>

fun serve :: "'w platform \<Rightarrow> request list \<Rightarrow> 'w server \<Rightarrow> response result list \<times> 'w server" where
  "serve api [] s = ([], s)"
| "serve api (req # reqs) s =
     (case fetchFormHandler api req s of
        (r, s') \<Rightarrow> (case serve api reqs s' of (rs, s'') \<Rightarrow> (r # rs, s'')))"

section \<open>Requests in flight together\<close>

text \<open>
  The handler gives control back at its two \<^verbatim>\<open>await\<close>s (lines 129 and 130), so
  another request can run between them. A request is therefore in one of four stages:
  not yet started, waiting for the navigation, waiting for the captured content, finished.
  One step runs a request from one suspension point to the next: the first step is the
  code up to the call of \<^verbatim>\<open>goto\<close>, the second is the navigation settling and the
  call of \<^verbatim>\<open>content\<close>, the third is the capture settling and the rest of the body.
\<close>

datatype stage =
    Incoming request
  | Navigating page string
  | Capturing page string
  | Finished response

fun step :: "'w platform \<Rightarrow> stage \<Rightarrow> 'w server \<Rightarrow> stage \<times> 'w server" where
  "step api (Incoming req) s =
     (let url = query req ''url'' in
      if falsy url \<or> typeof url \<noteq> ''string'' then
        (Finished (json_error 400 ''URL is required and must be a string''), s)
      else
        case (browser s, persistentPage s) of
          (Some _, Some p) \<Rightarrow>
            (case formCache s (as_string url) of
               Some html \<Rightarrow> (Finished (send html), s)
             | None \<Rightarrow> (Navigating p (as_string url), s))
        | _ \<Rightarrow> (Finished (json_error 500 ''Browser not initialized''), s))"
| "step api (Navigating p url) s =
     (case command api (Goto p url DomContentLoaded) (world s) of
        (Inr _, w') \<Rightarrow> (Capturing p url, logged (Cmd (Goto p url DomContentLoaded)) w' s)
      | (Inl err, w') \<Rightarrow>
          (Finished (json_error 500 ''Failed to fetch form''),
           logged (Cmd (Goto p url DomContentLoaded)) w' s))"
| "step api (Capturing p url) s =
     (case content api p (world s) of
        (Inr html, w') \<Rightarrow>
          (Finished (send html),
           (logged (Content p) w' s)\<lparr>formCache := (formCache s)(url \<mapsto> html)\<rparr>)
      | (Inl err, w') \<Rightarrow>
          (Finished (json_error 500 ''Failed to fetch form''), logged (Content p) w' s))"
| "step api (Finished r) s = (Finished r, s)"

text \<open>A schedule names, step by step, the request that runs next.\<close>

fun run :: "'w platform \<Rightarrow> nat list \<Rightarrow> stage list \<times> 'w server \<Rightarrow> stage list \<times> 'w server" where
  "run api [] c = c"
| "run api (i # sched) (ts, s) =
     (if i < length ts then
        (case step api (ts ! i) s of (t', s') \<Rightarrow> run api sched (ts[i := t'], s'))
      else run api sched (ts, s))"

section \<open>A scripted platform\<close>

text \<open>
  A platform to run the model on: one browser with one page, a fixed web, and a script
  saying what the identity provider shows, what the human types and whether closing
  fails. The world is the document in the page and the number of navigations so far.
\<close>

record script =
  site :: "string \<rightharpoonup> string"
  shows_challenge :: bool
  offers_email_code :: bool
  typed_code :: "string option"
  close_fails :: bool
  variables :: "string \<rightharpoonup> string"

record tab =
  document :: string
  navigations :: nat

fun scripted_command :: "script \<Rightarrow> command \<Rightarrow> tab \<Rightarrow> (exn + unit) \<times> tab" where
  "scripted_command sc (Goto p url l) w =
     (case site sc url of
        None \<Rightarrow> (Inl (Error ''net::ERR_NAME_NOT_RESOLVED''), w)
      | Some html \<Rightarrow> (Inr (), \<lparr>document = html, navigations = Suc (navigations w)\<rparr>))"
| "scripted_command sc (ClosePage p) w =
     (if close_fails sc then (Inl (Error ''Protocol error: Connection closed.''), w)
      else (Inr (), w))"
| "scripted_command sc (CloseBrowser b) w =
     (if close_fails sc then (Inl (Error ''Protocol error: Connection closed.''), w)
      else (Inr (), w))"
| "scripted_command sc _ w = (Inr (), w)"

definition scripted :: "script \<Rightarrow> tab platform" where
  "scripted sc =
     \<lparr>launch = (\<lambda>w. (Inr (Browser 0), w)),
      newPage = (\<lambda>b w. (Inr (Page 0), w)),
      command = scripted_command sc,
      evaluate = (\<lambda>p w. (Inr (\<lambda>sel. shows_challenge sc \<and> sel = ''#challenge''), w)),
      dollar = (\<lambda>p sel w.
        (Inr (if offers_email_code sc then Some (ElementHandle 0) else None), w)),
      content = (\<lambda>p w. (Inr (document w), w)),
      question = (\<lambda>q w. (typed_code sc, w)),
      env = variables sc\<rparr>"

definition blank :: tab where
  "blank = \<lparr>document = [], navigations = 0\<rparr>"

definition get :: "string \<Rightarrow> request" where
  "get url = \<lparr>query = [''url'' \<mapsto> QString url]\<rparr>"

definition plain :: script where
  "plain = \<lparr>site = [''https://accounts.google.com/'' \<mapsto> ''<html>Sign in</html>'',
                     ''https://example.com/form'' \<mapsto> ''<form>A</form>'',
                     ''https://example.com/other'' \<mapsto> ''<form>B</form>''],
            shows_challenge = False, offers_email_code = False, typed_code = None,
            close_fails = False,
            variables = [''GOOGLE_EMAIL'' \<mapsto> ''me@example.com'',
                         ''GOOGLE_PASSWORD'' \<mapsto> ''secret'']\<rparr>"

text \<open>The provider asks for a code, offers to mail it, and the human types it.\<close>

definition challenged :: script where
  "challenged = plain\<lparr>shows_challenge := True, offers_email_code := True,
                        typed_code := Some ''123456''\<rparr>"

text \<open>The provider asks for a code and does not offer to mail it.\<close>

definition no_option :: script where
  "no_option = plain\<lparr>shows_challenge := True\<rparr>"

text \<open>The browser has lost its connection: no page loads, and closing raises.\<close>

definition disconnected :: script where
  "disconnected = plain\<lparr>site := Map.empty, close_fails := True\<rparr>"

text \<open>The process as a successful start-up leaves it.\<close>

definition signed_in :: "tab server" where
  "signed_in = (boot blank)\<lparr>browser := Some (Browser 0), persistentPage := Some (Page 0),
                             listening := True\<rparr>"

text \<open>
  A second platform, for a page that is not the same at every visit (a form carrying a
  fresh token, say): the world counts the navigations, and the captured content is as
  many \<open>x\<close> as there have been.
\<close>

fun revisited_command :: "command \<Rightarrow> nat \<Rightarrow> (exn + unit) \<times> nat" where
  "revisited_command (Goto p url l) n = (Inr (), Suc n)"
| "revisited_command _ n = (Inr (), n)"

definition revisited :: "nat platform" where
  "revisited =
     \<lparr>launch = (\<lambda>n. (Inr (Browser 0), n)),
      newPage = (\<lambda>b n. (Inr (Page 0), n)),
      command = revisited_command,
      evaluate = (\<lambda>p n. (Inr (\<lambda>sel. False), n)),
      dollar = (\<lambda>p sel n. (Inr None, n)),
      content = (\<lambda>p n. (Inr (replicate n CHR ''x''), n)),
      question = (\<lambda>q n. (None, n)),
      env = Map.empty\<rparr>"

definition live :: "nat server" where
  "live = (boot 0)\<lparr>browser := Some (Browser 0), persistentPage := Some (Page 0),
                     listening := True\<rparr>"

section \<open>Vocabulary of the statements\<close>

text \<open>The calls of a login, in order: the common opening, then one of two branches.\<close>

definition opening_calls :: "'w platform \<Rightarrow> browser \<Rightarrow> page \<Rightarrow> call list" where
  "opening_calls api b p =
     [Launch, NewPage b,
      Cmd (SetDefaultNavigationTimeout p 10000),
      Cmd (Goto p ''https://accounts.google.com/'' DomContentLoaded),
      Cmd (TypeText p ''#identifierId'' (or_empty (env api ''GOOGLE_EMAIL''))),
      Cmd (Click p ''#identifierNext''),
      Cmd (WaitForSelector p ''#passwordNext, #totpPin, #challenge'' (Some 15000)),
      Evaluate p]"

definition password_calls :: "'w platform \<Rightarrow> page \<Rightarrow> call list" where
  "password_calls api p =
     [Cmd (TypeText p password_input (or_empty (env api ''GOOGLE_PASSWORD''))),
      Cmd (Click p ''#passwordNext''),
      Cmd (WaitForNavigation p DomContentLoaded)]"

definition challenge_calls :: "page \<Rightarrow> element \<Rightarrow> string \<Rightarrow> call list" where
  "challenge_calls p el code =
     [Dollar p gmailOptionSelector,
      Cmd (ElementClick el),
      Cmd (WaitForNavigation p DomContentLoaded),
      Cmd (WaitForSelector p code_input None),
      Question code_prompt,
      Cmd (TypeText p code_input code),
      Cmd (Click p ''#totpNext, #submitChallenge''),
      Cmd (WaitForNavigation p DomContentLoaded)]"

text \<open>The release calls owed in a state: the page if held, then the browser if held.\<close>

definition held_calls :: "'w server \<Rightarrow> call list" where
  "held_calls s =
     (case persistentPage s of Some p \<Rightarrow> [Cmd (ClosePage p)] | None \<Rightarrow> []) @
     (case browser s of Some b \<Rightarrow> [Cmd (CloseBrowser b)] | None \<Rightarrow> [])"

text \<open>A platform on which closing a page or a browser never raises.\<close>

definition closes_cleanly :: "'w platform \<Rightarrow> bool" where
  "closes_cleanly api \<longleftrightarrow>
     (\<forall>p w. fst (command api (ClosePage p) w) = Inr ()) \<and>
     (\<forall>b w. fst (command api (CloseBrowser b) w) = Inr ())"

text \<open>The session is live and the cache holds \<open>h\<close> for \<open>u\<close>.\<close>

definition warm :: "string \<Rightarrow> string \<Rightarrow> 'w server \<Rightarrow> bool" where
  "warm u h s \<longleftrightarrow> browser s \<noteq> None \<and> persistentPage s \<noteq> None \<and> formCache s u = Some h"

text \<open>
  A request for the URL \<open>u\<close> that has missed the cache and has not yet written it: it
  is waiting for its navigation or for its capture.
\<close>

fun in_flight_for :: "string \<Rightarrow> stage \<Rightarrow> bool" where
  "in_flight_for u (Navigating p v) = (v = u)"
| "in_flight_for u (Capturing p v) = (v = u)"
| "in_flight_for u _ = False"

text \<open>An asynchronous function that leaves the cache and the process flags alone.\<close>

definition keeps :: "('w, 'a) async \<Rightarrow> bool" where
  "keeps m \<longleftrightarrow> (\<forall>s r s'. m s = (r, s') \<longrightarrow>
     listening s' = listening s \<and> exit_code s' = exit_code s \<and> formCache s' = formCache s)"

section \<open>Reasoning about asynchronous functions\<close>

lemmas async_defs = resolve_def throw_def await_def try_catch_def gets_def modify_def
  extern_def cmd_def settle_def logged_def process_exit_def

lemmas handler_defs = fetchFormHandler_def fetch_form_def Let_def send_def json_error_def

lemmas example_defs = scripted_def plain_def challenged_def no_option_def disconnected_def
  signed_in_def boot_def blank_def get_def

lemmas login_defs = initializeBrowser_def login_def open_page_def identify_def
  enter_password_def verify_by_code_def promptForCode_def release_def isVerificationPrompt_def

lemma await_Resolved:
  assumes "await m f s = (Resolved y, s')"
  obtains x s1 where "m s = (Resolved x, s1)" "f x s1 = (Resolved y, s')"
  using assms by (auto simp: await_def split: prod.splits result.splits)

lemma extern_Resolved:
  assumes "extern c f s = (Resolved x, s')"
  shows "\<exists>w. fst (f w) = Inr x"
  using assms
  by (auto simp: async_defs split: prod.splits sum.splits intro: exI[of _ "world s"])

lemma keeps_await: "keeps m \<Longrightarrow> (\<And>x. keeps (f x)) \<Longrightarrow> keeps (await m f)"
  unfolding keeps_def await_def
  by (auto split: prod.splits result.splits)

lemma keeps_leaf:
  "keeps (extern c g)" "keeps (cmd api k)" "keeps (resolve x)" "keeps (throw e)"
  "keeps (gets h)" "keeps (promptForCode api)"
  by (auto simp: keeps_def promptForCode_def async_defs split: prod.splits)

lemma keeps_modify:
  assumes "\<And>s. listening (g s) = listening s \<and> exit_code (g s) = exit_code s
              \<and> formCache (g s) = formCache s"
  shows "keeps (modify g)"
  using assms by (simp add: keeps_def modify_def)

lemma keeps_option:
  "keeps a \<Longrightarrow> (\<And>x. keeps (f x)) \<Longrightarrow> keeps (case v of None \<Rightarrow> a | Some x \<Rightarrow> f x)"
  by (cases v) simp_all

lemma keeps_if: "keeps a \<Longrightarrow> keeps b \<Longrightarrow> keeps (if c then a else b)"
  by simp

lemmas keeps_rules = keeps_await keeps_leaf keeps_modify keeps_option keeps_if

section \<open>The fetch handler, path by path\<close>

lemma handler_hit:
  assumes "query req ''url'' = Some (QString u)" "u \<noteq> []"
    and "browser s = Some b" "persistentPage s = Some p" "formCache s u = Some h"
  shows "fetchFormHandler api req s = (Resolved \<lparr>status = 200, body = Text h\<rparr>, s)"
  using assms by (simp add: handler_defs async_defs)

lemma handler_nav_fails:
  assumes "query req ''url'' = Some (QString u)" "u \<noteq> []"
    and "browser s = Some b" "persistentPage s = Some p" "formCache s u = None"
    and "command api (Goto p u DomContentLoaded) (world s) = (Inl e, w1)"
  shows "fetchFormHandler api req s =
           (Resolved \<lparr>status = 500, body = Json [(''error'', ''Failed to fetch form'')]\<rparr>,
            s\<lparr>world := w1, trace := trace s @ [Cmd (Goto p u DomContentLoaded)]\<rparr>)"
  using assms by (simp add: handler_defs async_defs)

lemma handler_capture_fails:
  assumes "query req ''url'' = Some (QString u)" "u \<noteq> []"
    and "browser s = Some b" "persistentPage s = Some p" "formCache s u = None"
    and "command api (Goto p u DomContentLoaded) (world s) = (Inr (), w1)"
    and "content api p w1 = (Inl e, w2)"
  shows "fetchFormHandler api req s =
           (Resolved \<lparr>status = 500, body = Json [(''error'', ''Failed to fetch form'')]\<rparr>,
            s\<lparr>world := w2, trace := trace s @ [Cmd (Goto p u DomContentLoaded), Content p]\<rparr>)"
  using assms by (simp add: handler_defs async_defs)

text \<open>The handler's promise always resolves: it never rejects and never stays pending.\<close>

lemma handler_resolves: "\<exists>r. fst (fetchFormHandler api req s) = Resolved r"
  by (auto simp: handler_defs async_defs
      split: option.splits prod.splits result.splits sum.splits)

lemma handler_cache_mono:
  assumes "fetchFormHandler api req s = (r, s')" "formCache s u = Some h"
  shows "formCache s' u = Some h"
  using assms
  by (auto simp: handler_defs async_defs
      split: option.splits prod.splits result.splits sum.splits if_splits)

lemma handler_refs:
  assumes "fetchFormHandler api req s = (r, s')"
  shows "browser s' = browser s \<and> persistentPage s' = persistentPage s
       \<and> listening s' = listening s \<and> exit_code s' = exit_code s"
  using assms
  by (auto simp: handler_defs async_defs
      split: option.splits prod.splits result.splits sum.splits if_splits)

lemma handler_200:
  assumes "query req ''url'' = Some (QString u)"
    and "fetchFormHandler api req s = (Resolved \<lparr>status = 200, body = Text h\<rparr>, s')"
  shows "u \<noteq> [] \<and> warm u h s'"
  using assms
  by (auto simp: warm_def handler_defs async_defs
      split: option.splits prod.splits result.splits sum.splits if_splits)

lemma handler_warm:
  assumes "fetchFormHandler api req s = (r, s')" "warm u h s"
  shows "warm u h s'"
  using handler_cache_mono[OF assms(1)] handler_refs[OF assms(1)] assms(2)
  by (simp add: warm_def)

lemma warm_hit:
  assumes "warm u h s" "u \<noteq> []" "query req ''url'' = Some (QString u)"
  shows "fetchFormHandler api req s = (Resolved \<lparr>status = 200, body = Text h\<rparr>, s)"
proof -
  from assms(1) obtain b p where
    "browser s = Some b" "persistentPage s = Some p" "formCache s u = Some h"
    by (auto simp: warm_def)
  from handler_hit[OF assms(3) assms(2) this] show ?thesis .
qed

subsection \<open>Requests one after the other\<close>

lemma serve_Cons:
  assumes "serve api (req # reqs) s = (rs, s')"
  obtains r s1 rs1 where "fetchFormHandler api req s = (r, s1)"
    "serve api reqs s1 = (rs1, s')" "rs = r # rs1"
  using assms by (auto split: prod.splits)

lemma serve_warm:
  assumes "serve api reqs s = (rs, s')" "warm u h s"
  shows "warm u h s'"
  using assms
proof (induction reqs arbitrary: s rs)
  case Nil
  then show ?case by simp
next
  case (Cons req reqs)
  from Cons.prems(1) obtain r s1 rs1 where
    h: "fetchFormHandler api req s = (r, s1)" and t: "serve api reqs s1 = (rs1, s')"
    by (rule serve_Cons)
  from Cons.IH[OF t handler_warm[OF h Cons.prems(2)]] show ?case .
qed

lemma serve_warm_nth:
  assumes "serve api reqs s = (rs, s')" "warm u h s" "u \<noteq> []"
    and "i < length reqs" "query (reqs ! i) ''url'' = Some (QString u)"
  shows "rs ! i = Resolved \<lparr>status = 200, body = Text h\<rparr>"
  using assms
proof (induction reqs arbitrary: s rs i)
  case Nil
  then show ?case by simp
next
  case (Cons req reqs)
  from Cons.prems(1) obtain r s1 rs1 where
    h: "fetchFormHandler api req s = (r, s1)" and t: "serve api reqs s1 = (rs1, s')"
    and rs: "rs = r # rs1"
    by (rule serve_Cons)
  show ?case
  proof (cases i)
    case 0
    with Cons.prems have "query req ''url'' = Some (QString u)" by simp
    from warm_hit[OF Cons.prems(2,3) this] h 0 rs show ?thesis by simp
  next
    case (Suc j)
    with Cons.prems have "j < length reqs" "query (reqs ! j) ''url'' = Some (QString u)"
      by simp_all
    from Cons.IH[OF t handler_warm[OF h Cons.prems(2)] Cons.prems(3) this] Suc rs
    show ?thesis by simp
  qed
qed

lemma serve_resolves:
  assumes "serve api reqs s = (rs, s')"
  shows "length rs = length reqs \<and> (\<forall>r \<in> set rs. \<exists>resp. r = Resolved resp)"
  using assms
proof (induction reqs arbitrary: s rs)
  case Nil
  then show ?case by simp
next
  case (Cons req reqs)
  from Cons.prems obtain r s1 rs1 where
    h: "fetchFormHandler api req s = (r, s1)" and t: "serve api reqs s1 = (rs1, s')"
    and rs: "rs = r # rs1"
    by (rule serve_Cons)
  from handler_resolves[of api req s] h obtain resp where "r = Resolved resp" by auto
  with Cons.IH[OF t] rs show ?case by auto
qed

text \<open>
  Once a fetch of \<open>u\<close> has answered 200 with \<open>h\<close>, requests served one after the other
  keep the entry, and every one of them that asks for \<open>u\<close> gets \<open>h\<close> without a call to
  the page.
\<close>

lemma served_one_after_the_other:
  assumes "query req ''url'' = Some (QString u)"
    and "fetchFormHandler api req s0 = (Resolved \<lparr>status = 200, body = Text h\<rparr>, s1)"
    and "serve api reqs s1 = (rs, s2)"
    and "query req' ''url'' = Some (QString u)"
  shows "fetchFormHandler api req' s2 = (Resolved \<lparr>status = 200, body = Text h\<rparr>, s2)
       \<and> trace (snd (fetchFormHandler api req' s2)) = trace s2
       \<and> world (snd (fetchFormHandler api req' s2)) = world s2
       \<and> formCache s2 u = Some h
       \<and> (\<forall>i < length reqs. query (reqs ! i) ''url'' = Some (QString u)
             \<longrightarrow> rs ! i = Resolved \<lparr>status = 200, body = Text h\<rparr>)"
proof -
  from handler_200[OF assms(1,2)] have u: "u \<noteq> []" and w1: "warm u h s1" by simp_all
  from serve_warm[OF assms(3) w1] have w2: "warm u h s2" .
  from warm_hit[OF w2 u assms(4)]
  have "fetchFormHandler api req' s2 = (Resolved \<lparr>status = 200, body = Text h\<rparr>, s2)" .
  moreover from w2 have "formCache s2 u = Some h" by (simp add: warm_def)
  moreover from serve_warm_nth[OF assms(3) w1 u]
  have "\<forall>i < length reqs. query (reqs ! i) ''url'' = Some (QString u)
             \<longrightarrow> rs ! i = Resolved \<lparr>status = 200, body = Text h\<rparr>" by blast
  ultimately show ?thesis by simp
qed

subsection \<open>One request, step by step\<close>

text \<open>
  Run alone, the three steps of a request do what the handler does: the stages are the
  handler cut at its \<^verbatim>\<open>await\<close>s.
\<close>

lemma one_at_a_time:
  "\<exists>r s'. run api [0, 0, 0] ([Incoming req], s) = ([Finished r], s')
         \<and> fetchFormHandler api req s = (Resolved r, s')"
  by (auto simp: handler_defs async_defs split: option.splits prod.splits sum.splits)

subsection \<open>Requests that start after a page is cached\<close>

text \<open>
  However requests are interleaved, a cached page stays cached and is what every request
  for its URL gets, as long as no request for that URL had already missed the cache, and
  not yet written it, when the page was stored.
\<close>

lemma step_warm:
  assumes "warm u h s" "\<not> in_flight_for u t" "step api t s = (t', s')"
  shows "warm u h s' \<and> \<not> in_flight_for u t'"
proof (cases t)
  case (Incoming req)
  with assms show ?thesis
    by (auto simp: warm_def Let_def split: if_splits option.splits)
next
  case (Navigating p v)
  with assms show ?thesis
    by (auto simp: warm_def logged_def split: prod.splits sum.splits)
next
  case (Capturing p v)
  with assms show ?thesis
    by (auto simp: warm_def logged_def split: prod.splits sum.splits)
next
  case (Finished r)
  with assms show ?thesis by auto
qed

lemma step_warm_hit:
  assumes "warm u h s" "u \<noteq> []" "query req ''url'' = Some (QString u)"
  shows "step api (Incoming req) s = (Finished \<lparr>status = 200, body = Text h\<rparr>, s)"
  using assms by (auto simp: warm_def send_def)

lemma run_warm:
  assumes "run api sched (ts, s) = (ts', s')" "warm u h s" "\<forall>t \<in> set ts. \<not> in_flight_for u t"
  shows "warm u h s' \<and> (\<forall>t \<in> set ts'. \<not> in_flight_for u t)"
  using assms
proof (induction sched arbitrary: ts s)
  case Nil
  then show ?case by simp
next
  case (Cons i sched)
  show ?case
  proof (cases "i < length ts")
    case False
    with Cons.prems(1) have "run api sched (ts, s) = (ts', s')" by simp
    from Cons.IH[OF this Cons.prems(2,3)] show ?thesis .
  next
    case True
    obtain t1 s1 where st: "step api (ts ! i) s = (t1, s1)" by (cases "step api (ts ! i) s")
    with True Cons.prems(1) have r: "run api sched (ts[i := t1], s1) = (ts', s')" by simp
    from True Cons.prems(3) have "\<not> in_flight_for u (ts ! i)" by simp
    from step_warm[OF Cons.prems(2) this st] have w: "warm u h s1" and n: "\<not> in_flight_for u t1"
      by simp_all
    have "\<forall>t \<in> set (ts[i := t1]). \<not> in_flight_for u t"
      using Cons.prems(3) n by (metis insert_iff set_update_subset_insert subsetD)
    from Cons.IH[OF r w this] show ?thesis .
  qed
qed

lemma step_quiet:
  assumes "warm u h s" "\<not> in_flight_for u t" "step api t s = (t', s')"
  shows "\<exists>cs. trace s' = trace s @ cs \<and> (\<forall>p l. Cmd (Goto p u l) \<notin> set cs)"
proof (cases t)
  case (Incoming req)
  with assms have "trace s' = trace s @ []"
    by (auto simp: Let_def split: if_splits option.splits)
  then show ?thesis by (intro exI[of _ "[]"]) simp
next
  case (Navigating p v)
  with assms have "trace s' = trace s @ [Cmd (Goto p v DomContentLoaded)]" "v \<noteq> u"
    by (auto simp: logged_def split: prod.splits sum.splits)
  then show ?thesis by (intro exI[of _ "[Cmd (Goto p v DomContentLoaded)]"]) simp
next
  case (Capturing p v)
  with assms have "trace s' = trace s @ [Content p]"
    by (auto simp: logged_def split: prod.splits sum.splits)
  then show ?thesis by (intro exI[of _ "[Content p]"]) simp
next
  case (Finished r)
  with assms have "trace s' = trace s @ []" by auto
  then show ?thesis by (intro exI[of _ "[]"]) simp
qed

lemma run_quiet:
  assumes "run api sched (ts, s) = (ts', s')" "warm u h s" "\<forall>t \<in> set ts. \<not> in_flight_for u t"
  shows "\<exists>cs. trace s' = trace s @ cs \<and> (\<forall>p l. Cmd (Goto p u l) \<notin> set cs)"
  using assms
proof (induction sched arbitrary: ts s)
  case Nil
  then have "trace s' = trace s @ []" by simp
  then show ?case by (intro exI[of _ "[]"]) simp
next
  case (Cons i sched)
  show ?case
  proof (cases "i < length ts")
    case False
    with Cons.prems(1) have "run api sched (ts, s) = (ts', s')" by simp
    from Cons.IH[OF this Cons.prems(2,3)] show ?thesis .
  next
    case True
    obtain t1 s1 where st: "step api (ts ! i) s = (t1, s1)" by (cases "step api (ts ! i) s")
    with True Cons.prems(1) have r: "run api sched (ts[i := t1], s1) = (ts', s')" by simp
    from True Cons.prems(3) have nf: "\<not> in_flight_for u (ts ! i)" by simp
    from step_warm[OF Cons.prems(2) nf st] have w: "warm u h s1" and n: "\<not> in_flight_for u t1"
      by simp_all
    have all: "\<forall>t \<in> set (ts[i := t1]). \<not> in_flight_for u t"
      using Cons.prems(3) n by (metis insert_iff set_update_subset_insert subsetD)
    from step_quiet[OF Cons.prems(2) nf st] obtain cs1 where
      c1: "trace s1 = trace s @ cs1" "\<forall>p l. Cmd (Goto p u l) \<notin> set cs1" by blast
    from Cons.IH[OF r w all] obtain cs2 where
      c2: "trace s' = trace s1 @ cs2" "\<forall>p l. Cmd (Goto p u l) \<notin> set cs2" by blast
    from c1 c2 have "trace s' = trace s @ (cs1 @ cs2)" "\<forall>p l. Cmd (Goto p u l) \<notin> set (cs1 @ cs2)"
      by simp_all
    then show ?thesis by blast
  qed
qed

lemma run_length:
  assumes "run api sched (ts, s) = (ts', s')"
  shows "length ts' = length ts"
  using assms
proof (induction sched arbitrary: ts s)
  case Nil
  then show ?case by simp
next
  case (Cons i sched)
  then show ?case by (auto split: if_splits prod.splits)
qed

lemma run_finished:
  assumes "run api sched (ts, s) = (ts', s')" "i < length ts" "ts ! i = Finished r"
  shows "ts' ! i = Finished r"
  using assms
proof (induction sched arbitrary: ts s)
  case Nil
  then show ?case by simp
next
  case (Cons j sched)
  show ?case
  proof (cases "j < length ts")
    case False
    with Cons.prems(1) have "run api sched (ts, s) = (ts', s')" by simp
    from Cons.IH[OF this Cons.prems(2,3)] show ?thesis .
  next
    case True
    obtain t1 s1 where st: "step api (ts ! j) s = (t1, s1)" by (cases "step api (ts ! j) s")
    with True Cons.prems(1) have r: "run api sched (ts[j := t1], s1) = (ts', s')" by simp
    have "(ts[j := t1]) ! i = Finished r"
    proof (cases "j = i")
      case True
      with st Cons.prems(2,3) show ?thesis by auto
    next
      case False
      with Cons.prems(3) show ?thesis by simp
    qed
    moreover from Cons.prems(2) have "i < length (ts[j := t1])" by simp
    ultimately show ?thesis using Cons.IH[OF r] by blast
  qed
qed

lemma run_answers:
  assumes "run api sched (ts, s) = (ts', s')" "warm u h s" "u \<noteq> []"
    and "\<forall>t \<in> set ts. \<not> in_flight_for u t"
    and "i < length ts" "ts ! i = Incoming req" "query req ''url'' = Some (QString u)"
  shows "ts' ! i = Incoming req \<or> ts' ! i = Finished \<lparr>status = 200, body = Text h\<rparr>"
  using assms
proof (induction sched arbitrary: ts s)
  case Nil
  then show ?case by simp
next
  case (Cons j sched)
  show ?case
  proof (cases "j < length ts")
    case False
    with Cons.prems(1) have "run api sched (ts, s) = (ts', s')" by simp
    from Cons.IH[OF this Cons.prems(2-7)] show ?thesis .
  next
    case True
    obtain t1 s1 where st: "step api (ts ! j) s = (t1, s1)" by (cases "step api (ts ! j) s")
    with True Cons.prems(1) have r: "run api sched (ts[j := t1], s1) = (ts', s')" by simp
    from True Cons.prems(4) have nf: "\<not> in_flight_for u (ts ! j)" by simp
    from step_warm[OF Cons.prems(2) nf st] have w: "warm u h s1" and n: "\<not> in_flight_for u t1"
      by simp_all
    have all: "\<forall>t \<in> set (ts[j := t1]). \<not> in_flight_for u t"
      using Cons.prems(4) n by (metis insert_iff set_update_subset_insert subsetD)
    have len: "i < length (ts[j := t1])" using Cons.prems(5) by simp
    show ?thesis
    proof (cases "j = i")
      case True
      with st Cons.prems(6) step_warm_hit[OF Cons.prems(2,3,7), of api]
      have "t1 = Finished \<lparr>status = 200, body = Text h\<rparr>" by simp
      with True Cons.prems(5) have "(ts[j := t1]) ! i = Finished \<lparr>status = 200, body = Text h\<rparr>"
        by simp
      from run_finished[OF r len this] show ?thesis by simp
    next
      case False
      with Cons.prems(6) have "(ts[j := t1]) ! i = Incoming req" by simp
      from Cons.IH[OF r w Cons.prems(3) all len this Cons.prems(7)] show ?thesis .
    qed
  qed
qed

section \<open>The login, part by part\<close>

lemma open_page_ok:
  assumes "open_page api s = (Resolved p, s')"
  shows "\<exists>b. browser s' = Some b \<and> persistentPage s' = Some p
           \<and> trace s' = trace s @ [Launch, NewPage b, Cmd (SetDefaultNavigationTimeout p 10000)]"
  using assms
  by (auto simp: open_page_def async_defs split: prod.splits result.splits sum.splits)

lemma identify_ok:
  assumes "identify api p s = (Resolved qs, s')"
  shows "(\<exists>w. fst (evaluate api p w) = Inr qs)
       \<and> browser s' = browser s \<and> persistentPage s' = persistentPage s
       \<and> trace s' = trace s @
            [Cmd (Goto p ''https://accounts.google.com/'' DomContentLoaded),
             Cmd (TypeText p ''#identifierId'' (or_empty (env api ''GOOGLE_EMAIL''))),
             Cmd (Click p ''#identifierNext''),
             Cmd (WaitForSelector p ''#passwordNext, #totpPin, #challenge'' (Some 15000)),
             Evaluate p]"
proof -
  have "\<exists>w. fst (evaluate api p w) = Inr qs"
    using assms unfolding identify_def
    by (elim await_Resolved) (rule extern_Resolved)
  moreover have "browser s' = browser s \<and> persistentPage s' = persistentPage s
       \<and> trace s' = trace s @
            [Cmd (Goto p ''https://accounts.google.com/'' DomContentLoaded),
             Cmd (TypeText p ''#identifierId'' (or_empty (env api ''GOOGLE_EMAIL''))),
             Cmd (Click p ''#identifierNext''),
             Cmd (WaitForSelector p ''#passwordNext, #totpPin, #challenge'' (Some 15000)),
             Evaluate p]"
    using assms
    by (auto simp: identify_def async_defs split: prod.splits result.splits sum.splits)
  ultimately show ?thesis by blast
qed

lemma enter_password_ok:
  assumes "enter_password api p s = (Resolved x, s')"
  shows "trace s' = trace s @ password_calls api p
       \<and> browser s' = browser s \<and> persistentPage s' = persistentPage s"
  using assms
  by (auto simp: enter_password_def password_calls_def async_defs
      split: prod.splits result.splits sum.splits)

lemma verify_by_code_ok:
  assumes "verify_by_code api p s = (Resolved x, s')"
  shows "(\<exists>el code. trace s' = trace s @ challenge_calls p el code)
       \<and> browser s' = browser s \<and> persistentPage s' = persistentPage s"
  using assms
  by (auto simp: verify_by_code_def promptForCode_def challenge_calls_def async_defs
      split: prod.splits result.splits sum.splits option.splits)

lemma login_ok:
  assumes "login api s = (Resolved x, s')"
  shows "\<exists>b p qs. browser s' = Some b \<and> persistentPage s' = Some p
           \<and> (\<exists>w. fst (evaluate api p w) = Inr qs)
           \<and> (if isVerificationPrompt qs
               then \<exists>el code. trace s' = trace s @ opening_calls api b p @ challenge_calls p el code
               else trace s' = trace s @ opening_calls api b p @ password_calls api p)"
proof -
  from assms obtain p s1 qs s2 where
    o: "open_page api s = (Resolved p, s1)" and
    i: "identify api p s1 = (Resolved qs, s2)" and
    r: "(if isVerificationPrompt qs then verify_by_code api p else enter_password api p) s2
          = (Resolved x, s')"
    unfolding login_def by (elim await_Resolved)
  from open_page_ok[OF o] obtain b where
    b: "browser s1 = Some b" "persistentPage s1 = Some p"
      "trace s1 = trace s @ [Launch, NewPage b, Cmd (SetDefaultNavigationTimeout p 10000)]"
    by blast
  note i' = identify_ok[OF i]
  from b i' have t2: "trace s2 = trace s @ opening_calls api b p"
    by (simp add: opening_calls_def)
  show ?thesis
  proof (cases "isVerificationPrompt qs")
    case True
    with r have "verify_by_code api p s2 = (Resolved x, s')" by simp
    from verify_by_code_ok[OF this] t2 b i' True show ?thesis by auto
  next
    case False
    with r have "enter_password api p s2 = (Resolved x, s')" by simp
    from enter_password_ok[OF this] t2 b i' False show ?thesis by auto
  qed
qed

lemma branches_differ:
  "pre @ opening_calls api b p @ challenge_calls p el code
     \<noteq> pre @ opening_calls api b p @ password_calls api p"
  by (simp add: challenge_calls_def password_calls_def)

lemma keeps_login: "keeps (login api)"
  unfolding login_def open_page_def identify_def verify_by_code_def enter_password_def
  by (intro keeps_rules) simp_all

lemma keeps_release: "keeps (release api err)"
  unfolding release_def by (intro keeps_rules) simp_all

lemma release_rejects: "\<exists>e. fst (release api err s) = Rejected e"
  by (auto simp: release_def async_defs split: prod.splits sum.splits option.splits)

lemma closes_cleanly_page:
  assumes "closes_cleanly api"
  obtains w' where "command api (ClosePage p) w = (Inr (), w')"
  using assms by (metis closes_cleanly_def prod.collapse)

lemma closes_cleanly_browser:
  assumes "closes_cleanly api"
  obtains w' where "command api (CloseBrowser b) w = (Inr (), w')"
  using assms by (metis closes_cleanly_def prod.collapse)

text \<open>When closing does not raise, the two guarded release calls behave as one step.\<close>

lemma close_held:
  assumes "closes_cleanly api"
  obtains w' where
    "await (gets persistentPage) (\<lambda>pp.
     await (case pp of Some p \<Rightarrow> cmd api (ClosePage p) | None \<Rightarrow> resolve ()) (\<lambda>_.
     await (gets browser) (\<lambda>b.
     await (case b of Some b' \<Rightarrow> cmd api (CloseBrowser b') | None \<Rightarrow> resolve ()) k))) s
     = k () (s\<lparr>world := w', trace := trace s @ held_calls s\<rparr>)"
proof (cases "persistentPage s")
  case None
  note pn = this
  show ?thesis
  proof (cases "browser s")
    case None
    with pn that[of "world s"] show ?thesis by (simp add: held_calls_def async_defs)
  next
    case (Some b0)
    from closes_cleanly_browser[OF assms] obtain w' where
      "command api (CloseBrowser b0) (world s) = (Inr (), w')" .
    with Some pn that[of w'] show ?thesis by (simp add: held_calls_def async_defs)
  qed
next
  case (Some p0)
  note ps = this
  from closes_cleanly_page[OF assms] obtain w1 where
    w1: "command api (ClosePage p0) (world s) = (Inr (), w1)" .
  show ?thesis
  proof (cases "browser s")
    case None
    with ps w1 that[of w1] show ?thesis by (simp add: held_calls_def async_defs)
  next
    case (Some b0)
    from closes_cleanly_browser[OF assms] obtain w' where
      "command api (CloseBrowser b0) w1 = (Inr (), w')" .
    with Some ps w1 that[of w'] show ?thesis by (simp add: held_calls_def async_defs)
  qed
qed

lemma release_clean:
  assumes "closes_cleanly api" "release api err s = (r, s')"
  shows "r = Rejected err \<and> browser s' = None \<and> persistentPage s' = None
       \<and> trace s' = trace s @ held_calls s"
proof -
  from close_held[OF assms(1)] obtain w' where
    "release api err s =
       (await (modify (\<lambda>s. s\<lparr>browser := None, persistentPage := None\<rparr>)) (\<lambda>_. throw err))
         (s\<lparr>world := w', trace := trace s @ held_calls s\<rparr>)"
    unfolding release_def by blast
  with assms(2) show ?thesis by (auto simp: async_defs)
qed

lemma init_Resolved:
  assumes "initializeBrowser api s = (Resolved x, s')"
  shows "login api s = (Resolved x, s')"
proof (cases "login api s")
  case (Pair r s1)
  show ?thesis
  proof (cases r)
    case (Rejected e)
    with Pair assms have "release api e s1 = (Resolved x, s')"
      by (simp add: initializeBrowser_def try_catch_def)
    with release_rejects[of api e s1] show ?thesis by simp
  qed (use Pair assms in \<open>simp_all add: initializeBrowser_def try_catch_def\<close>)
qed

lemma init_Rejected:
  assumes "initializeBrowser api s = (Rejected e, s')"
  obtains e0 s1 where "login api s = (Rejected e0, s1)" "release api e0 s1 = (Rejected e, s')"
  using assms
  by (cases "login api s") (auto simp: initializeBrowser_def try_catch_def split: result.splits)

lemma main_after_reject:
  assumes "initializeBrowser api s = (Rejected e, s')"
  shows "main api s = (Resolved (), s'\<lparr>exit_code := Some 1\<rparr>)"
  using assms by (simp add: main_def startServer_def async_defs)

lemma main_after_login:
  assumes "initializeBrowser api s = (Resolved (), s')"
  shows "main api s = (Resolved (), s'\<lparr>listening := True\<rparr>)"
  using assms by (simp add: main_def startServer_def async_defs)

section \<open>Shutdown\<close>

lemma shutdown_clean:
  assumes "closes_cleanly api"
  shows "\<exists>w'. shutdown api s =
           (Resolved (), s\<lparr>world := w', trace := trace s @ held_calls s @ [RlClose],
                            exit_code := Some 0\<rparr>)"
proof -
  from close_held[OF assms] obtain w' where
    "shutdown api s =
       (await (modify (\<lambda>s. s\<lparr>trace := trace s @ [RlClose]\<rparr>)) (\<lambda>_. process_exit 0))
         (s\<lparr>world := w', trace := trace s @ held_calls s\<rparr>)"
    unfolding shutdown_def by blast
  then show ?thesis by (auto simp: async_defs)
qed

lemma shutdown_nothing_held:
  assumes "browser s = None" "persistentPage s = None"
  shows "shutdown api s = (Resolved (), s\<lparr>trace := trace s @ [RlClose], exit_code := Some 0\<rparr>)"
  using assms by (simp add: shutdown_def async_defs)

text \<open>The handlers of the earlier version: the same, with no readline to close.\<close>

lemma signal_handler_clean:
  assumes "closes_cleanly api"
  shows "\<exists>w'. signal_handler api s =
           (Resolved (), s\<lparr>world := w', trace := trace s @ held_calls s, exit_code := Some 0\<rparr>)"
proof -
  from close_held[OF assms] obtain w' where
    "signal_handler api s =
       process_exit 0 (s\<lparr>world := w', trace := trace s @ held_calls s\<rparr>)"
    unfolding signal_handler_def by blast
  then show ?thesis by (auto simp: async_defs)
qed

lemma signal_handler_nothing_held:
  assumes "browser s = None" "persistentPage s = None"
  shows "signal_handler api s = (Resolved (), s\<lparr>exit_code := Some 0\<rparr>)"
  using assms by (simp add: signal_handler_def async_defs)

section \<open>The claims about the fetch handler\<close>

text \<open>
  C1. A request for a URL \<open>u\<close> that passes the validation, with the session live and
  \<open>u\<close> absent from the cache, whose navigation and capture both resolve: the handler
  calls \<^verbatim>\<open>goto\<close> on the session's page with \<open>u\<close> and
  \<^verbatim>\<open>domcontentloaded\<close>, then \<^verbatim>\<open>content\<close>, stores the captured HTML under
  exactly \<open>u\<close>, and answers 200 with that HTML. Nothing else changes.
\<close>

theorem fetch_miss_navigates_and_caches:
  assumes "query req ''url'' = Some (QString u)" "u \<noteq> []"
    and "browser s = Some b" "persistentPage s = Some p" "formCache s u = None"
    and "command api (Goto p u DomContentLoaded) (world s) = (Inr (), w1)"
    and "content api p w1 = (Inr h, w2)"
  shows "fetchFormHandler api req s =
           (Resolved \<lparr>status = 200, body = Text h\<rparr>,
            s\<lparr>world := w2,
              trace := trace s @ [Cmd (Goto p u DomContentLoaded), Content p],
              formCache := (formCache s)(u \<mapsto> h)\<rparr>)"
  using assms by (simp add: handler_defs async_defs)

text \<open>Scenario 1 of the specification, on the scripted platform.\<close>

theorem fetch_miss_navigates_and_caches_witness:
  "formCache signed_in ''https://example.com/form'' = None
   \<and> fetchFormHandler (scripted plain) (get ''https://example.com/form'') signed_in =
       (Resolved \<lparr>status = 200, body = Text ''<form>A</form>''\<rparr>,
        signed_in\<lparr>world := \<lparr>document = ''<form>A</form>'', navigations = 1\<rparr>,
                  trace := [Cmd (Goto (Page 0) ''https://example.com/form'' DomContentLoaded),
                            Content (Page 0)],
                  formCache := [''https://example.com/form'' \<mapsto> ''<form>A</form>'']\<rparr>)"
  using fetch_miss_navigates_and_caches[of "get ''https://example.com/form''"
      "''https://example.com/form''" signed_in "Browser 0" "Page 0" "scripted plain"
      "\<lparr>document = ''<form>A</form>'', navigations = 1\<rparr>" "''<form>A</form>''"
      "\<lparr>document = ''<form>A</form>'', navigations = 1\<rparr>"]
  by (simp add: example_defs)

text \<open>
  C2, as stated, fails when a second request for the same URL is already in flight. The
  handler tests the cache (line 122) before its two \<^verbatim>\<open>await\<close>s and writes it after
  them (line 131) without testing again. Here two requests for one URL both miss; the
  first navigates, captures \<open>x\<close>, stores it and answers; the second then navigates,
  captures \<open>xx\<close> and stores that under the same URL. The entry of the first fetch is
  overwritten, and a fetch made after both returns \<open>xx\<close>, not the first response.
\<close>

theorem overlapping_fetch_overwrites_counterexample:
  "fst (run revisited [0, 1, 0, 0]
          ([Incoming (get ''https://example.com/form''),
            Incoming (get ''https://example.com/form'')], live))
     = [Finished \<lparr>status = 200, body = Text ''x''\<rparr>,
        Navigating (Page 0) ''https://example.com/form'']
   \<and> formCache (snd (run revisited [0, 1, 0, 0]
          ([Incoming (get ''https://example.com/form''),
            Incoming (get ''https://example.com/form'')], live)))
        ''https://example.com/form'' = Some ''x''
   \<and> formCache (snd (run revisited [0, 1, 0, 0, 1, 1]
          ([Incoming (get ''https://example.com/form''),
            Incoming (get ''https://example.com/form'')], live)))
        ''https://example.com/form'' = Some ''xx''
   \<and> fst (fetchFormHandler revisited (get ''https://example.com/form'')
          (snd (run revisited [0, 1, 0, 0, 1, 1]
            ([Incoming (get ''https://example.com/form''),
              Incoming (get ''https://example.com/form'')], live))))
     = Resolved \<lparr>status = 200, body = Text ''xx''\<rparr>"
  by (simp add: handler_defs async_defs revisited_def live_def boot_def get_def)

text \<open>
  C2, amended. Take a state in which the session is live and the cache holds \<open>h\<close> under
  a URL \<open>u\<close> that passes the validation, as it is once a fetch of \<open>u\<close> has answered 200
  with \<open>h\<close> (lemma \<open>handler_200\<close>), and in which no other request for \<open>u\<close> has
  missed the cache and not yet written it. Then, however the requests there are and those that
  arrive later are interleaved: the cache still holds \<open>h\<close> under \<open>u\<close>; no navigation to
  \<open>u\<close> is made; every request for \<open>u\<close> that has run is answered 200 with \<open>h\<close>; and a
  further fetch of \<open>u\<close> answers 200 with \<open>h\<close> and leaves the whole state, trace and
  world included, as it was.
\<close>

theorem cached_page_survives_later_requests:
  assumes "browser s1 = Some b" "persistentPage s1 = Some p"
    and "formCache s1 u = Some h" "u \<noteq> []"
    and "\<forall>t \<in> set ts. \<not> in_flight_for u t"
    and "run api sched (ts, s1) = (ts', s2)"
  shows "formCache s2 u = Some h
       \<and> (\<exists>cs. trace s2 = trace s1 @ cs \<and> (\<forall>p l. Cmd (Goto p u l) \<notin> set cs))
       \<and> (\<forall>i req. i < length ts \<and> ts ! i = Incoming req
                    \<and> query req ''url'' = Some (QString u)
              \<longrightarrow> ts' ! i = Incoming req
                  \<or> ts' ! i = Finished \<lparr>status = 200, body = Text h\<rparr>)
       \<and> (\<forall>req. query req ''url'' = Some (QString u)
              \<longrightarrow> fetchFormHandler api req s2 =
                    (Resolved \<lparr>status = 200, body = Text h\<rparr>, s2))"
proof -
  from assms(1-3) have w1: "warm u h s1" by (simp add: warm_def)
  from run_warm[OF assms(6) w1 assms(5)] have w2: "warm u h s2" by simp
  then have "formCache s2 u = Some h" by (simp add: warm_def)
  moreover from run_quiet[OF assms(6) w1 assms(5)]
  have "\<exists>cs. trace s2 = trace s1 @ cs \<and> (\<forall>p l. Cmd (Goto p u l) \<notin> set cs)" .
  moreover from run_answers[OF assms(6) w1 assms(4,5)]
  have "\<forall>i req. i < length ts \<and> ts ! i = Incoming req
                    \<and> query req ''url'' = Some (QString u)
              \<longrightarrow> ts' ! i = Incoming req
                  \<or> ts' ! i = Finished \<lparr>status = 200, body = Text h\<rparr>" by blast
  moreover from warm_hit[OF w2 assms(4)]
  have "\<forall>req. query req ''url'' = Some (QString u)
              \<longrightarrow> fetchFormHandler api req s2 =
                    (Resolved \<lparr>status = 200, body = Text h\<rparr>, s2)" by blast
  ultimately show ?thesis by blast
qed

text \<open>
  Scenario 2 of the specification, with a navigation-count probe and a request for
  another page running at the same time: after a first fetch of the form, a request for
  the other page and a second request for the form are interleaved; the second request
  and a third fetch of the form both return the HTML of the first, and the page has
  navigated twice in all, once for each URL.
\<close>

theorem cached_page_survives_later_requests_witness:
  "fst (fetchFormHandler (scripted plain) (get ''https://example.com/form'') signed_in)
     = Resolved \<lparr>status = 200, body = Text ''<form>A</form>''\<rparr>
   \<and> fst (run (scripted plain) [0, 1, 0, 0]
        ([Incoming (get ''https://example.com/other''),
          Incoming (get ''https://example.com/form'')],
         snd (fetchFormHandler (scripted plain) (get ''https://example.com/form'') signed_in)))
     = [Finished \<lparr>status = 200, body = Text ''<form>B</form>''\<rparr>,
        Finished \<lparr>status = 200, body = Text ''<form>A</form>''\<rparr>]
   \<and> fst (fetchFormHandler (scripted plain) (get ''https://example.com/form'')
        (snd (run (scripted plain) [0, 1, 0, 0]
          ([Incoming (get ''https://example.com/other''),
            Incoming (get ''https://example.com/form'')],
           snd (fetchFormHandler (scripted plain) (get ''https://example.com/form'')
                  signed_in)))))
     = Resolved \<lparr>status = 200, body = Text ''<form>A</form>''\<rparr>
   \<and> navigations (world (snd (fetchFormHandler (scripted plain)
        (get ''https://example.com/form'')
        (snd (run (scripted plain) [0, 1, 0, 0]
          ([Incoming (get ''https://example.com/other''),
            Incoming (get ''https://example.com/form'')],
           snd (fetchFormHandler (scripted plain) (get ''https://example.com/form'')
                  signed_in))))))) = 2"
proof -
  let ?P = "scripted plain"
  let ?u = "''https://example.com/form''"
  let ?s1 = "snd (fetchFormHandler ?P (get ?u) signed_in)"
  let ?ts = "[Incoming (get ''https://example.com/other''), Incoming (get ?u)]"
  let ?c = "run ?P [0, 1, 0, 0] (?ts, ?s1)"
  have f: "fst (fetchFormHandler ?P (get ?u) signed_in)
             = Resolved \<lparr>status = 200, body = Text ''<form>A</form>''\<rparr>"
    by (simp add: handler_defs async_defs example_defs)
  have h1: "browser ?s1 = Some (Browser 0)"
    and h2: "persistentPage ?s1 = Some (Page 0)"
    and h3: "formCache ?s1 ?u = Some ''<form>A</form>''"
    by (simp_all add: handler_defs async_defs example_defs)
  have h4: "?u \<noteq> []" by simp
  have h5: "\<forall>t \<in> set ?ts. \<not> in_flight_for ?u t" by simp
  have h6: "?c = (fst ?c, snd ?c)" by simp
  have q: "query (get ?u) ''url'' = Some (QString ?u)" by (simp add: get_def)
  have r: "fst ?c = [Finished \<lparr>status = 200, body = Text ''<form>B</form>''\<rparr>,
                     Finished \<lparr>status = 200, body = Text ''<form>A</form>''\<rparr>]"
    by (simp add: handler_defs async_defs example_defs)
  have n: "navigations (world (snd ?c)) = 2"
    by (simp add: handler_defs async_defs example_defs)
  from cached_page_survives_later_requests[OF h1 h2 h3 h4 h5 h6] q
  have "fetchFormHandler ?P (get ?u) (snd ?c)
          = (Resolved \<lparr>status = 200, body = Text ''<form>A</form>''\<rparr>, snd ?c)" by blast
  with f r n show ?thesis by simp
qed

text \<open>
  C3. When the \<^verbatim>\<open>url\<close> parameter is missing or is not a single string, the handler
  answers 400 with \<^verbatim>\<open>{error: "URL is required and must be a string"}\<close> and changes
  nothing, in every state of the process: the session plays no part.
\<close>

theorem missing_or_non_string_url_is_rejected:
  assumes "\<forall>u. query req ''url'' \<noteq> Some (QString u)"
  shows "fetchFormHandler api req s =
           (Resolved \<lparr>status = 400,
                       body = Json [(''error'', ''URL is required and must be a string'')]\<rparr>, s)"
proof (cases "query req ''url''")
  case None
  then show ?thesis by (simp add: handler_defs resolve_def)
next
  case (Some v)
  with assms show ?thesis by (cases v) (simp_all add: handler_defs resolve_def)
qed

text \<open>A repeated key, with the session live: Scenario 3 is the same with no key at all.\<close>

theorem missing_or_non_string_url_is_rejected_witness:
  "fetchFormHandler (scripted plain)
      \<lparr>query = [''url'' \<mapsto> QArray [QString ''https://a.example'', QString ''https://b.example'']]\<rparr>
      signed_in =
     (Resolved \<lparr>status = 400,
                 body = Json [(''error'', ''URL is required and must be a string'')]\<rparr>, signed_in)
   \<and> fetchFormHandler (scripted plain) \<lparr>query = Map.empty\<rparr> (boot blank) =
     (Resolved \<lparr>status = 400,
                 body = Json [(''error'', ''URL is required and must be a string'')]\<rparr>, boot blank)"
  using missing_or_non_string_url_is_rejected[of
      "\<lparr>query = [''url'' \<mapsto> QArray [QString ''https://a.example'', QString ''https://b.example'']]\<rparr>"
      "scripted plain" signed_in]
    missing_or_non_string_url_is_rejected[of "\<lparr>query = Map.empty\<rparr>" "scripted plain" "boot blank"]
  by simp

text \<open>
  C4, as stated, fails: the empty string is a present, single string, and with no session
  the answer to it is the 400 of the validation, not the 500 of the guard.
\<close>

theorem empty_url_without_session_counterexample:
  "query (get []) ''url'' = Some (QString [])
   \<and> browser (boot blank) = None
   \<and> fetchFormHandler (scripted plain) (get []) (boot blank) =
       (Resolved \<lparr>status = 400,
                   body = Json [(''error'', ''URL is required and must be a string'')]\<rparr>,
        boot blank)"
  by (simp add: handler_defs async_defs example_defs)

text \<open>
  C4, amended. When the \<^verbatim>\<open>url\<close> parameter is a single non-empty string and the
  browser or the page is null, the handler answers 500 with
  \<^verbatim>\<open>{error: "Browser not initialized"}\<close> and changes nothing, whatever the cache holds.
\<close>

theorem no_session_is_500:
  assumes "query req ''url'' = Some (QString u)" "u \<noteq> []"
    and "browser s = None \<or> persistentPage s = None"
  shows "fetchFormHandler api req s =
           (Resolved \<lparr>status = 500, body = Json [(''error'', ''Browser not initialized'')]\<rparr>, s)"
  using assms by (auto simp: handler_defs async_defs split: option.splits)

text \<open>With the requested URL already in the cache.\<close>

theorem no_session_is_500_witness:
  "formCache ((boot blank)\<lparr>formCache := [''https://example.com/form'' \<mapsto> ''<form>A</form>'']\<rparr>)
      ''https://example.com/form'' = Some ''<form>A</form>''
   \<and> fetchFormHandler (scripted plain) (get ''https://example.com/form'')
        ((boot blank)\<lparr>formCache := [''https://example.com/form'' \<mapsto> ''<form>A</form>'']\<rparr>) =
       (Resolved \<lparr>status = 500, body = Json [(''error'', ''Browser not initialized'')]\<rparr>,
        (boot blank)\<lparr>formCache := [''https://example.com/form'' \<mapsto> ''<form>A</form>'']\<rparr>)"
  using no_session_is_500[of "get ''https://example.com/form''" "''https://example.com/form''"
      "(boot blank)\<lparr>formCache := [''https://example.com/form'' \<mapsto> ''<form>A</form>'']\<rparr>"
      "scripted plain"]
  by (simp add: example_defs)

text \<open>
  C5. A request that passes the validation and the guard and misses the cache, whose
  navigation rejects, or whose navigation resolves and whose capture rejects: the handler
  answers 500 with \<^verbatim>\<open>{error: "Failed to fetch form"}\<close>; its promise resolves,
  \<^verbatim>\<open>process.exit\<close> is not called, the session variables and the cache are as before;
  and every request served afterwards is answered.
\<close>

theorem fetch_failure_is_local:
  assumes "query req ''url'' = Some (QString u)" "u \<noteq> []"
    and "browser s = Some b" "persistentPage s = Some p" "formCache s u = None"
    and "fst (command api (Goto p u DomContentLoaded) (world s)) = Inl e
       \<or> (\<exists>w1. command api (Goto p u DomContentLoaded) (world s) = (Inr (), w1)
               \<and> fst (content api p w1) = Inl e)"
  shows "\<exists>s'. fetchFormHandler api req s =
                 (Resolved \<lparr>status = 500, body = Json [(''error'', ''Failed to fetch form'')]\<rparr>, s')
             \<and> exit_code s' = exit_code s \<and> listening s' = listening s
             \<and> browser s' = browser s \<and> persistentPage s' = persistentPage s
             \<and> formCache s' = formCache s
             \<and> (\<forall>reqs. length (fst (serve api reqs s')) = length reqs
                      \<and> (\<forall>r \<in> set (fst (serve api reqs s')). \<exists>resp. r = Resolved resp))"
proof -
  have later: "\<And>s'. \<forall>reqs. length (fst (serve api reqs s')) = length reqs
                      \<and> (\<forall>r \<in> set (fst (serve api reqs s')). \<exists>resp. r = Resolved resp)"
    using serve_resolves by (metis prod.collapse)
  from assms(6) show ?thesis
  proof
    assume "fst (command api (Goto p u DomContentLoaded) (world s)) = Inl e"
    then obtain w1 where "command api (Goto p u DomContentLoaded) (world s) = (Inl e, w1)"
      by (metis prod.collapse)
    from handler_nav_fails[OF assms(1-5) this] later show ?thesis by simp
  next
    assume "\<exists>w1. command api (Goto p u DomContentLoaded) (world s) = (Inr (), w1)
               \<and> fst (content api p w1) = Inl e"
    then obtain w1 w2 where "command api (Goto p u DomContentLoaded) (world s) = (Inr (), w1)"
      "content api p w1 = (Inl e, w2)"
      by (metis prod.collapse)
    from handler_capture_fails[OF assms(1-5) this] later show ?thesis by simp
  qed
qed

text \<open>A URL that does not resolve, then a URL that does.\<close>

theorem fetch_failure_is_local_witness:
  "fst (fetchFormHandler (scripted plain) (get ''https://example.com/missing'') signed_in)
     = Resolved \<lparr>status = 500, body = Json [(''error'', ''Failed to fetch form'')]\<rparr>
   \<and> exit_code (snd (fetchFormHandler (scripted plain) (get ''https://example.com/missing'')
        signed_in)) = None
   \<and> fst (serve (scripted plain) [get ''https://example.com/form'']
        (snd (fetchFormHandler (scripted plain) (get ''https://example.com/missing'') signed_in)))
     = [Resolved \<lparr>status = 200, body = Text ''<form>A</form>''\<rparr>]"
proof -
  let ?u = "''https://example.com/missing''"
  let ?go = "command (scripted plain) (Goto (Page 0) ?u DomContentLoaded)"
  have h1: "query (get ?u) ''url'' = Some (QString ?u)" by (simp add: get_def)
  have h2: "?u \<noteq> []" by simp
  have h3: "browser signed_in = Some (Browser 0)" by (simp add: example_defs)
  have h4: "persistentPage signed_in = Some (Page 0)" by (simp add: example_defs)
  have h5: "formCache signed_in ?u = None" by (simp add: example_defs)
  have h6: "fst (?go (world signed_in)) = Inl (Error ''net::ERR_NAME_NOT_RESOLVED'')
       \<or> (\<exists>w1. ?go (world signed_in) = (Inr (), w1)
               \<and> fst (content (scripted plain) (Page 0) w1)
                    = Inl (Error ''net::ERR_NAME_NOT_RESOLVED''))"
    by (simp add: example_defs)
  from fetch_failure_is_local[OF h1 h2 h3 h4 h5 h6] obtain s' where
    a: "fetchFormHandler (scripted plain) (get ?u) signed_in =
          (Resolved \<lparr>status = 500, body = Json [(''error'', ''Failed to fetch form'')]\<rparr>, s')"
    and b: "exit_code s' = exit_code signed_in"
    by blast
  have c: "exit_code signed_in = None" by (simp add: example_defs)
  have d: "fst (serve (scripted plain) [get ''https://example.com/form'']
        (snd (fetchFormHandler (scripted plain) (get ?u) signed_in)))
     = [Resolved \<lparr>status = 200, body = Text ''<form>A</form>''\<rparr>]"
    by (simp add: handler_defs async_defs example_defs)
  from a b c d show ?thesis by simp
qed

text \<open>
  C10. When the \<^verbatim>\<open>url\<close> parameter is the empty string, the handler answers 400 with
  \<^verbatim>\<open>{error: "URL is required and must be a string"}\<close> and changes nothing: the
  parameter is present and is a string, and \<^verbatim>\<open>!url\<close> is true of it.
\<close>

theorem empty_url_is_rejected:
  assumes "query req ''url'' = Some (QString [])"
  shows "fetchFormHandler api req s =
           (Resolved \<lparr>status = 400,
                       body = Json [(''error'', ''URL is required and must be a string'')]\<rparr>, s)"
  using assms by (simp add: handler_defs resolve_def)

theorem empty_url_is_rejected_witness:
  "typeof (query (get []) ''url'') = ''string''
   \<and> fetchFormHandler (scripted plain) (get []) signed_in =
       (Resolved \<lparr>status = 400,
                   body = Json [(''error'', ''URL is required and must be a string'')]\<rparr>,
        signed_in)"
  using empty_url_is_rejected[of "get []" "scripted plain" signed_in]
  by (simp add: get_def)

section \<open>The claims about start-up and shutdown\<close>

text \<open>
  C6, as stated, fails when the release itself raises. Here the browser has lost its
  connection: the navigation to the identity provider rejects, the handler of the
  exception calls \<^verbatim>\<open>persistentPage.close()\<close>, that call rejects too, and the
  handler is left at that line. The browser is not closed, both variables still hold
  their objects, and the error that reaches the caller is the one of \<^verbatim>\<open>close\<close>.
\<close>

theorem failed_release_counterexample:
  "fst (initializeBrowser (scripted disconnected) (boot blank))
     = Rejected (Error ''Protocol error: Connection closed.'')
   \<and> browser (snd (initializeBrowser (scripted disconnected) (boot blank))) = Some (Browser 0)
   \<and> persistentPage (snd (initializeBrowser (scripted disconnected) (boot blank))) = Some (Page 0)
   \<and> trace (snd (initializeBrowser (scripted disconnected) (boot blank))) =
       [Launch, NewPage (Browser 0),
        Cmd (SetDefaultNavigationTimeout (Page 0) 10000),
        Cmd (Goto (Page 0) ''https://accounts.google.com/'' DomContentLoaded),
        Cmd (ClosePage (Page 0))]"
  by (simp add: login_defs async_defs example_defs)

text \<open>
  C6, amended. When \<^verbatim>\<open>initializeBrowser\<close> rejects with \<open>e\<close>, the start-up ends in
  \<^verbatim>\<open>process.exit(1)\<close> and \<^verbatim>\<open>app.listen\<close> is never called, whatever the release
  did. If moreover closing a page or a browser does not raise, then \<open>e\<close> is the exception
  of the step of the login that failed, the page and the browser held at that point were
  closed, in that order, and both variables are null.
\<close>

theorem failed_login_releases_and_aborts:
  assumes "initializeBrowser api s = (Rejected e, s')"
  shows "main api s = (Resolved (), s'\<lparr>exit_code := Some 1\<rparr>)
       \<and> exit_code (snd (main api s)) = Some 1
       \<and> listening (snd (main api s)) = listening s
       \<and> (closes_cleanly api \<longrightarrow>
            (\<exists>s1. login api s = (Rejected e, s1)
                \<and> trace s' = trace s1 @ held_calls s1
                \<and> browser s' = None \<and> persistentPage s' = None))"
proof -
  from assms obtain e0 s1 where
    l: "login api s = (Rejected e0, s1)" and r: "release api e0 s1 = (Rejected e, s')"
    by (rule init_Rejected)
  have "listening s' = listening s"
    using l r keeps_login[of api] keeps_release[of api e0] unfolding keeps_def by metis
  moreover have "closes_cleanly api \<longrightarrow>
            (\<exists>s1. login api s = (Rejected e, s1)
                \<and> trace s' = trace s1 @ held_calls s1
                \<and> browser s' = None \<and> persistentPage s' = None)"
    using release_clean[OF _ r] l by auto
  ultimately show ?thesis using main_after_reject[OF assms] by simp
qed

text \<open>
  Scenario 5 of the specification: the provider asks for a code and does not offer to mail
  it. Page and browser are closed, the variables are null, the process exits with code 1
  and never listens.
\<close>

theorem failed_login_releases_and_aborts_witness:
  "fst (initializeBrowser (scripted no_option) (boot blank))
     = Rejected (Error ''Gmail verification option not found.'')
   \<and> exit_code (snd (main (scripted no_option) (boot blank))) = Some 1
   \<and> listening (snd (main (scripted no_option) (boot blank))) = False
   \<and> browser (snd (initializeBrowser (scripted no_option) (boot blank))) = None
   \<and> persistentPage (snd (initializeBrowser (scripted no_option) (boot blank))) = None
   \<and> trace (snd (initializeBrowser (scripted no_option) (boot blank))) =
       opening_calls (scripted no_option) (Browser 0) (Page 0) @
       [Dollar (Page 0) gmailOptionSelector,
        Cmd (ClosePage (Page 0)), Cmd (CloseBrowser (Browser 0))]"
proof -
  let ?init = "initializeBrowser (scripted no_option) (boot blank)"
  have f: "fst ?init = Rejected (Error ''Gmail verification option not found.'')"
    by (simp add: login_defs async_defs example_defs)
  then have h: "?init = (Rejected (Error ''Gmail verification option not found.''), snd ?init)"
    by (simp add: prod_eq_iff)
  have c: "closes_cleanly (scripted no_option)"
    by (simp add: closes_cleanly_def example_defs)
  have l: "listening (boot blank) = False" by (simp add: boot_def)
  have t: "trace (snd ?init) =
       opening_calls (scripted no_option) (Browser 0) (Page 0) @
       [Dollar (Page 0) gmailOptionSelector,
        Cmd (ClosePage (Page 0)), Cmd (CloseBrowser (Browser 0))]"
    by (simp add: login_defs async_defs example_defs opening_calls_def)
  from failed_login_releases_and_aborts[OF h] c l
  have "exit_code (snd (main (scripted no_option) (boot blank))) = Some 1"
    and "listening (snd (main (scripted no_option) (boot blank))) = False"
    and "browser (snd ?init) = None" and "persistentPage (snd ?init) = None"
    by auto
  with f t show ?thesis by simp
qed

text \<open>
  C7. When \<^verbatim>\<open>initializeBrowser\<close> resolves, no step of the login has raised (the body
  of the \<^verbatim>\<open>try\<close> itself resolved, and the \<^verbatim>\<open>catch\<close> never ran), the browser and
  the page are held, and the calls made are the common opening followed by exactly one of
  the two branches, chosen by what the page showed: the verification calls (select the
  mail option, ask the human for the code, submit it) when a prompt was detected, the
  password calls (type the secret, submit, wait for the navigation) when none was. The
  two are never equal.
\<close>

theorem login_takes_exactly_one_branch:
  assumes "initializeBrowser api s = (Resolved (), s')"
  shows "login api s = (Resolved (), s')
       \<and> (\<exists>b p qs. browser s' = Some b \<and> persistentPage s' = Some p
             \<and> (\<exists>w. fst (evaluate api p w) = Inr qs)
             \<and> (if isVerificationPrompt qs
                 then (\<exists>el code. trace s' =
                         trace s @ opening_calls api b p @ challenge_calls p el code)
                      \<and> trace s' \<noteq> trace s @ opening_calls api b p @ password_calls api p
                 else trace s' = trace s @ opening_calls api b p @ password_calls api p
                      \<and> (\<forall>el code. trace s' \<noteq>
                            trace s @ opening_calls api b p @ challenge_calls p el code)))"
proof -
  from init_Resolved[OF assms] have l: "login api s = (Resolved (), s')" .
  from login_ok[OF l] obtain b p qs where
    h: "browser s' = Some b" "persistentPage s' = Some p" "\<exists>w. fst (evaluate api p w) = Inr qs"
    and t: "if isVerificationPrompt qs
            then \<exists>el code. trace s' = trace s @ opening_calls api b p @ challenge_calls p el code
            else trace s' = trace s @ opening_calls api b p @ password_calls api p"
    by blast
  have "if isVerificationPrompt qs
        then (\<exists>el code. trace s' = trace s @ opening_calls api b p @ challenge_calls p el code)
             \<and> trace s' \<noteq> trace s @ opening_calls api b p @ password_calls api p
        else trace s' = trace s @ opening_calls api b p @ password_calls api p
             \<and> (\<forall>el code. trace s' \<noteq>
                   trace s @ opening_calls api b p @ challenge_calls p el code)"
  proof (cases "isVerificationPrompt qs")
    case True
    with t obtain el code where
      "trace s' = trace s @ opening_calls api b p @ challenge_calls p el code" by auto
    with True branches_differ[of "trace s" api b p el code] show ?thesis by auto
  next
    case False
    with t have "trace s' = trace s @ opening_calls api b p @ password_calls api p" by simp
    with False branches_differ[of "trace s" api b p] show ?thesis by (simp add: eq_commute)
  qed
  with l h show ?thesis by blast
qed

text \<open>
  A run of each kind: the password alone, and Scenario 4 of the specification, where the
  human supplies the code 123456.
\<close>

theorem login_takes_exactly_one_branch_witness:
  "fst (initializeBrowser (scripted plain) (boot blank)) = Resolved ()
   \<and> trace (snd (initializeBrowser (scripted plain) (boot blank))) =
       opening_calls (scripted plain) (Browser 0) (Page 0) @
       password_calls (scripted plain) (Page 0)
   \<and> login (scripted plain) (boot blank) = initializeBrowser (scripted plain) (boot blank)
   \<and> fst (initializeBrowser (scripted challenged) (boot blank)) = Resolved ()
   \<and> trace (snd (initializeBrowser (scripted challenged) (boot blank))) =
       opening_calls (scripted challenged) (Browser 0) (Page 0) @
       challenge_calls (Page 0) (ElementHandle 0) ''123456''"
proof -
  let ?a = "initializeBrowser (scripted plain) (boot blank)"
  let ?b = "initializeBrowser (scripted challenged) (boot blank)"
  have fa: "fst ?a = Resolved ()"
    by (simp add: login_defs async_defs example_defs)
  then have ha: "?a = (Resolved (), snd ?a)" by (simp add: prod_eq_iff)
  have ta: "trace (snd ?a) =
       opening_calls (scripted plain) (Browser 0) (Page 0) @
       password_calls (scripted plain) (Page 0)"
    by (simp add: login_defs async_defs example_defs opening_calls_def password_calls_def)
  have fb: "fst ?b = Resolved ()"
    by (simp add: login_defs async_defs example_defs)
  have tb: "trace (snd ?b) =
       opening_calls (scripted challenged) (Browser 0) (Page 0) @
       challenge_calls (Page 0) (ElementHandle 0) ''123456''"
    by (simp add: login_defs async_defs example_defs opening_calls_def challenge_calls_def)
  from login_takes_exactly_one_branch[OF ha]
  have "login (scripted plain) (boot blank) = (Resolved (), snd ?a)" by blast
  with ha have "login (scripted plain) (boot blank) = ?a" by simp
  with fa ta fb tb show ?thesis by simp
qed

text \<open>
  C8, as stated, fails when a release raises. With a page whose \<^verbatim>\<open>close\<close> rejects,
  \<^verbatim>\<open>shutdown\<close> is left at line 153: the browser is not closed and
  \<^verbatim>\<open>process.exit(0)\<close> is not reached.
\<close>

theorem shutdown_failed_release_counterexample:
  "persistentPage signed_in = Some (Page 0) \<and> browser signed_in = Some (Browser 0)
   \<and> shutdown (scripted disconnected) signed_in =
       (Rejected (Error ''Protocol error: Connection closed.''),
        signed_in\<lparr>trace := [Cmd (ClosePage (Page 0))]\<rparr>)
   \<and> exit_code (snd (shutdown (scripted disconnected) signed_in)) = None"
  by (simp add: shutdown_def async_defs example_defs)

text \<open>
  C8, amended. With the page and the browser both null, \<^verbatim>\<open>shutdown\<close> makes no
  release call, raises nothing and ends in \<^verbatim>\<open>process.exit(0)\<close>. On a platform where
  closing a page or a browser does not raise, every invocation closes the page if held,
  then the browser if held, raises nothing and ends in \<^verbatim>\<open>process.exit(0)\<close>; so does a
  second run of its body from the state the first one left; and a second signal changes
  nothing, the process having exited.
\<close>

theorem shutdown_is_idempotent:
  "(browser s = None \<and> persistentPage s = None \<longrightarrow>
      shutdown api s =
        (Resolved (), s\<lparr>trace := trace s @ [RlClose], exit_code := Some 0\<rparr>))
   \<and> (closes_cleanly api \<longrightarrow>
        (\<exists>w'. shutdown api s =
           (Resolved (), s\<lparr>world := w', trace := trace s @ held_calls s @ [RlClose],
                            exit_code := Some 0\<rparr>))
        \<and> fst (shutdown api (snd (shutdown api s))) = Resolved ()
        \<and> exit_code (snd (shutdown api (snd (shutdown api s)))) = Some 0
        \<and> on_signal api (on_signal api s) = on_signal api s)"
proof -
  have a: "browser s = None \<and> persistentPage s = None \<longrightarrow>
      shutdown api s =
        (Resolved (), s\<lparr>trace := trace s @ [RlClose], exit_code := Some 0\<rparr>)"
    using shutdown_nothing_held by blast
  have b: "closes_cleanly api \<longrightarrow>
        (\<exists>w'. shutdown api s =
           (Resolved (), s\<lparr>world := w', trace := trace s @ held_calls s @ [RlClose],
                            exit_code := Some 0\<rparr>))
        \<and> fst (shutdown api (snd (shutdown api s))) = Resolved ()
        \<and> exit_code (snd (shutdown api (snd (shutdown api s)))) = Some 0
        \<and> on_signal api (on_signal api s) = on_signal api s"
  proof
    assume c: "closes_cleanly api"
    have every: "\<And>t. fst (shutdown api t) = Resolved () \<and> exit_code (snd (shutdown api t)) = Some 0"
    proof -
      fix t
      from shutdown_clean[OF c, of t] obtain w' where
        "shutdown api t =
           (Resolved (), t\<lparr>world := w', trace := trace t @ held_calls t @ [RlClose],
                            exit_code := Some 0\<rparr>)" by blast
      then show "fst (shutdown api t) = Resolved () \<and> exit_code (snd (shutdown api t)) = Some 0"
        by simp
    qed
    have "on_signal api (on_signal api s) = on_signal api s"
      using every[of s] by (simp add: on_signal_def)
    with shutdown_clean[OF c, of s] every[of "snd (shutdown api s)"]
    show "(\<exists>w'. shutdown api s =
           (Resolved (), s\<lparr>world := w', trace := trace s @ held_calls s @ [RlClose],
                            exit_code := Some 0\<rparr>))
        \<and> fst (shutdown api (snd (shutdown api s))) = Resolved ()
        \<and> exit_code (snd (shutdown api (snd (shutdown api s)))) = Some 0
        \<and> on_signal api (on_signal api s) = on_signal api s"
      by blast
  qed
  from a b show ?thesis by blast
qed

text \<open>
  A shutdown before anything was acquired, a shutdown of a live session, and a second
  signal after it.
\<close>

theorem shutdown_is_idempotent_witness:
  "shutdown (scripted plain) (boot blank) =
     (Resolved (), (boot blank)\<lparr>trace := [RlClose], exit_code := Some 0\<rparr>)
   \<and> shutdown (scripted plain) signed_in =
     (Resolved (),
      signed_in\<lparr>trace := [Cmd (ClosePage (Page 0)), Cmd (CloseBrowser (Browser 0)), RlClose],
                exit_code := Some 0\<rparr>)
   \<and> on_signal (scripted plain) (on_signal (scripted plain) signed_in) =
       signed_in\<lparr>trace := [Cmd (ClosePage (Page 0)), Cmd (CloseBrowser (Browser 0)), RlClose],
                 exit_code := Some 0\<rparr>"
proof -
  have c: "closes_cleanly (scripted plain)"
    by (simp add: closes_cleanly_def example_defs)
  have n: "browser (boot blank) = None \<and> persistentPage (boot blank) = None"
    by (simp add: boot_def)
  have e: "shutdown (scripted plain) signed_in =
     (Resolved (),
      signed_in\<lparr>trace := [Cmd (ClosePage (Page 0)), Cmd (CloseBrowser (Browser 0)), RlClose],
                exit_code := Some 0\<rparr>)"
    by (simp add: shutdown_def async_defs example_defs)
  have o: "on_signal (scripted plain) signed_in = snd (shutdown (scripted plain) signed_in)"
    by (simp add: on_signal_def example_defs)
  from shutdown_is_idempotent[of "boot blank" "scripted plain"] n
  have 1: "shutdown (scripted plain) (boot blank) =
     (Resolved (), (boot blank)\<lparr>trace := [RlClose], exit_code := Some 0\<rparr>)"
    by (simp add: boot_def)
  from shutdown_is_idempotent[of signed_in "scripted plain"] c
  have "on_signal (scripted plain) (on_signal (scripted plain) signed_in)
          = on_signal (scripted plain) signed_in" by blast
  with o e 1 show ?thesis by simp
qed

section \<open>The claim about requests in flight together\<close>

text \<open>
  C9. Two requests \<open>A\<close> and \<open>B\<close> that pass the validation and the guard and miss the
  cache share the one page of the session. Let \<open>A\<close> run up to the end of its navigation,
  then \<open>B\<close> up to the end of its own: both are now between their navigation and their
  capture, and nothing has stopped the second. When \<open>A\<close> resumes, what it captures, sends
  and stores under its own URL is the content of the page as \<open>B\<close>'s navigation left it.
\<close>

theorem interleaved_fetch_caches_other_page:
  assumes "query ra ''url'' = Some (QString ua)" "ua \<noteq> []"
    and "query rb ''url'' = Some (QString ub)" "ub \<noteq> []"
    and "browser s = Some b" "persistentPage s = Some p"
    and "formCache s ua = None" "formCache s ub = None"
    and "command api (Goto p ua DomContentLoaded) (world s) = (Inr (), w1)"
    and "command api (Goto p ub DomContentLoaded) w1 = (Inr (), w2)"
    and "content api p w2 = (Inr h, w3)"
  shows "run api [0, 0, 1, 1] ([Incoming ra, Incoming rb], s) =
           ([Capturing p ua, Capturing p ub],
            s\<lparr>world := w2,
              trace := trace s @ [Cmd (Goto p ua DomContentLoaded),
                                  Cmd (Goto p ub DomContentLoaded)]\<rparr>)
       \<and> run api [0, 0, 1, 1, 0] ([Incoming ra, Incoming rb], s) =
           ([Finished \<lparr>status = 200, body = Text h\<rparr>, Capturing p ub],
            s\<lparr>world := w3,
              trace := trace s @ [Cmd (Goto p ua DomContentLoaded),
                                  Cmd (Goto p ub DomContentLoaded), Content p],
              formCache := (formCache s)(ua \<mapsto> h)\<rparr>)"
  using assms by (simp add: logged_def send_def Let_def)

text \<open>
  On the scripted platform: interleaved, the request for the form is answered with the
  other page and the cache keeps the other page under the form's URL; one after the
  other, the same two requests each get their own page.
\<close>

theorem interleaved_fetch_caches_other_page_witness:
  "run (scripted plain) [0, 0, 1, 1, 0]
      ([Incoming (get ''https://example.com/form''), Incoming (get ''https://example.com/other'')],
       signed_in) =
     ([Finished \<lparr>status = 200, body = Text ''<form>B</form>''\<rparr>,
       Capturing (Page 0) ''https://example.com/other''],
      signed_in\<lparr>world := \<lparr>document = ''<form>B</form>'', navigations = 2\<rparr>,
                trace := [Cmd (Goto (Page 0) ''https://example.com/form'' DomContentLoaded),
                          Cmd (Goto (Page 0) ''https://example.com/other'' DomContentLoaded),
                          Content (Page 0)],
                formCache := [''https://example.com/form'' \<mapsto> ''<form>B</form>'']\<rparr>)
   \<and> fst (run (scripted plain) [0, 0, 0, 1, 1, 1]
      ([Incoming (get ''https://example.com/form''), Incoming (get ''https://example.com/other'')],
       signed_in)) =
     [Finished \<lparr>status = 200, body = Text ''<form>A</form>''\<rparr>,
      Finished \<lparr>status = 200, body = Text ''<form>B</form>''\<rparr>]"
proof -
  have "fst (run (scripted plain) [0, 0, 0, 1, 1, 1]
      ([Incoming (get ''https://example.com/form''), Incoming (get ''https://example.com/other'')],
       signed_in)) =
     [Finished \<lparr>status = 200, body = Text ''<form>A</form>''\<rparr>,
      Finished \<lparr>status = 200, body = Text ''<form>B</form>''\<rparr>]"
    by (simp add: logged_def send_def Let_def example_defs)
  moreover from interleaved_fetch_caches_other_page[of
      "get ''https://example.com/form''" "''https://example.com/form''"
      "get ''https://example.com/other''" "''https://example.com/other''"
      signed_in "Browser 0" "Page 0" "scripted plain"
      "\<lparr>document = ''<form>A</form>'', navigations = 1\<rparr>"
      "\<lparr>document = ''<form>B</form>'', navigations = 2\<rparr>"
      "''<form>B</form>''"
      "\<lparr>document = ''<form>B</form>'', navigations = 2\<rparr>"]
  have "run (scripted plain) [0, 0, 1, 1, 0]
      ([Incoming (get ''https://example.com/form''), Incoming (get ''https://example.com/other'')],
       signed_in) =
     ([Finished \<lparr>status = 200, body = Text ''<form>B</form>''\<rparr>,
       Capturing (Page 0) ''https://example.com/other''],
      signed_in\<lparr>world := \<lparr>document = ''<form>B</form>'', navigations = 2\<rparr>,
                trace := [Cmd (Goto (Page 0) ''https://example.com/form'' DomContentLoaded),
                          Cmd (Goto (Page 0) ''https://example.com/other'' DomContentLoaded),
                          Content (Page 0)],
                formCache := [''https://example.com/form'' \<mapsto> ''<form>B</form>'']\<rparr>)"
    by (simp add: example_defs)
  ultimately show ?thesis by simp
qed

end
